theory Spec2Isabelle
  imports Main "HOL-Library.Word" "HOL-Library.Sublist"
begin

section \<open>bootimgtool: the item exchange between a boot image and plain files\<close>

text \<open>
  A shallow embedding of \<^verbatim>\<open>bootimgtool/bootimgtool.cpp\<close>: the two subcommands
  \<^verbatim>\<open>unpack_main\<close> and \<open>pack_main\<close>, their helpers, and \<^verbatim>\<open>main\<close>.
  The C library calls the program makes (\<^verbatim>\<open>printf\<close>, \<^verbatim>\<open>fscanf\<close>, \<^verbatim>\<open>fgets\<close>,
  \<^verbatim>\<open>strtoul\<close>, \<^verbatim>\<open>getopt_long\<close>, \<^verbatim>\<open>fopen\<close>) are modelled after ISO C and the
  GNU C library; the boot image codec (libmbp) and the path library (libmbpio) are not
  part of the file and enter as parameters.
\<close>

type_synonym u32 = "32 word"

subsection \<open>C library: number formatting and parsing\<close>

definition isspace :: "char \<Rightarrow> bool" where
  "isspace c \<longleftrightarrow> c \<in> set [CHR '' '', CHR 0x09, CHR 0x0A, CHR 0x0B, CHR 0x0C, CHR 0x0D]"

text \<open>The digit value of a character in base \<open>b\<close>, as \<^verbatim>\<open>strtoul\<close> reads it:
  \<^verbatim>\<open>0-9\<close>, then letters of either case from 10 on. Numbers read and printed are
  mathematical integers until they are stored.\<close>

definition digit_val :: "int \<Rightarrow> char \<Rightarrow> int option" where
  "digit_val b c =
     (let n = (of_char c :: int);
          d = (if 48 \<le> n \<and> n \<le> 57 then Some (n - 48)
               else if 97 \<le> n \<and> n \<le> 122 then Some (n - 87)
               else if 65 \<le> n \<and> n \<le> 90 then Some (n - 55)
               else None)
      in case d of None \<Rightarrow> None | Some v \<Rightarrow> if v < b then Some v else None)"

definition is_digit :: "int \<Rightarrow> char \<Rightarrow> bool" where
  "is_digit b c \<longleftrightarrow> digit_val b c \<noteq> None"

fun digits_val :: "int \<Rightarrow> int \<Rightarrow> string \<Rightarrow> int" where
  "digits_val b acc [] = acc"
| "digits_val b acc (c # cs) =
     (case digit_val b c of None \<Rightarrow> acc | Some d \<Rightarrow> digits_val b (acc * b + d) cs)"

definition is_sign :: "char \<Rightarrow> bool" where
  "is_sign c \<longleftrightarrow> c = CHR ''+'' \<or> c = CHR ''-''"

definition has_hex_prefix :: "string \<Rightarrow> bool" where
  "has_hex_prefix s =
     (case s of c0 # c1 # _ \<Rightarrow> c0 = CHR ''0'' \<and> (c1 = CHR ''x'' \<or> c1 = CHR ''X'') | _ \<Rightarrow> False)"

text \<open>
  \<^verbatim>\<open>strtoul(str, &end, base)\<close> for an explicit base (the program passes 16 and 10):
  leading white space, an optional sign, for base 16 an optional \<^verbatim>\<open>0x\<close> that is
  followed by a hex digit, then the longest run of digits. The result is the magnitude
  read, whether a minus sign was read, and the rest of the string (\<^verbatim>\<open>end\<close>); with no
  digit nothing is converted and \<^verbatim>\<open>end = str\<close>.
\<close>

definition strtoul :: "int \<Rightarrow> string \<Rightarrow> int \<times> bool \<times> string" where
  "strtoul base str =
     (let s1 = dropWhile isspace str;
          neg = (case s1 of c # _ \<Rightarrow> c = CHR ''-'' | [] \<Rightarrow> False);
          s2 = (case s1 of c # cs \<Rightarrow> if is_sign c then cs else s1 | [] \<Rightarrow> s1);
          s3 = (if base = 16 \<and> has_hex_prefix s2 \<and>
                   (case drop 2 s2 of c # _ \<Rightarrow> is_digit 16 c | [] \<Rightarrow> False)
                then drop 2 s2 else s2);
          ds = takeWhile (is_digit base) s3
      in if ds = [] then (0, False, str)
         else (digits_val base 0 ds, neg, drop (length ds) s3))"

text \<open>
  \<^verbatim>\<open>str_to_uint32\<close> (lines 334-347). \<open>ulong_max\<close> is \<^verbatim>\<open>ULONG_MAX\<close>, the largest
  \<^verbatim>\<open>unsigned long\<close> of the platform (\<open>2^32 - 1\<close> or \<open>2^64 - 1\<close>): \<^verbatim>\<open>strtoul\<close> sets
  \<^verbatim>\<open>ERANGE\<close> exactly when the magnitude is larger. The assignment
  \<^verbatim>\<open>uint32_t num = strtoul(...)\<close> keeps the low 32 bits; a minus sign negates in
  unsigned arithmetic. \<open>None\<close> is \<^verbatim>\<open>return false\<close>.
\<close>

definition str_to_uint32 :: "int \<Rightarrow> int \<Rightarrow> string \<Rightarrow> u32 option" where
  "str_to_uint32 ulong_max base str =
     (case strtoul base str of (m, neg, end) \<Rightarrow>
        if m > ulong_max then None
        else if str = [] \<or> end \<noteq> [] then None
        else Some (if neg then - of_int m else of_int m))"

text \<open>
  \<^verbatim>\<open>fscanf(fp, "%08x", &v)\<close> and \<^verbatim>\<open>fscanf(fp, "%u", &v)\<close> on the characters of a
  stream, as the GNU C library converts them. White space is skipped. Of the field (all
  that follows, or its first \<open>width\<close> characters) an optional sign is read, then for
  \<^verbatim>\<open>%x\<close> a \<^verbatim>\<open>0\<close> followed by \<^verbatim>\<open>x\<close> or \<^verbatim>\<open>X\<close> as a prefix, then the digits of the base.
  The \<^verbatim>\<open>0\<close> of a prefix counts as a digit read, so a prefix with no hex digit after it
  converts to 0 (ISO C 7.21.6.2 would have it fail to match; the library's behaviour is
  the one modelled). The count returned is \<^verbatim>\<open>EOF\<close> when the input ends before any item, 0
  when no digit is read, 1 otherwise. \<open>fscanf_uint\<close> gives the count, whether a minus
  sign was read, and the magnitude of the digits.
\<close>

definition EOF :: int where
  "EOF = - 1"

definition fscanf_uint :: "int \<Rightarrow> nat option \<Rightarrow> string \<Rightarrow> int \<times> bool \<times> int" where
  "fscanf_uint base width inp =
     (let s1 = dropWhile isspace inp in
      if s1 = [] then (EOF, False, 0)
      else
        let t = (case width of None \<Rightarrow> s1 | Some w \<Rightarrow> take w s1);
            neg = (case t of c # _ \<Rightarrow> c = CHR ''-'' | [] \<Rightarrow> False);
            t2 = (case t of c # cs \<Rightarrow> if is_sign c then cs else t | [] \<Rightarrow> t);
            ds = (if base = 16 \<and> has_hex_prefix t2
                  then CHR ''0'' # takeWhile (is_digit 16) (drop 2 t2)
                  else takeWhile (is_digit base) t2)
        in if ds = [] then (0, False, 0)
           else (1, neg, digits_val base 0 ds))"

text \<open>
  The digits are converted as \<^verbatim>\<open>strtoul\<close> converts them, to an \<^verbatim>\<open>unsigned long\<close>: a
  magnitude above \<^verbatim>\<open>ULONG_MAX\<close> gives \<^verbatim>\<open>ULONG_MAX\<close>, otherwise a minus sign negates; the
  \<^verbatim>\<open>unsigned int\<close> stored is the low 32 bits.
\<close>

definition store_uint :: "int \<Rightarrow> bool \<Rightarrow> int \<Rightarrow> u32" where
  "store_uint ulong_max neg m =
     (if m > ulong_max then of_int ulong_max else if neg then - of_int m else of_int m)"

text \<open>A field of at most 8 characters holds a number below \<open>2^32\<close>, which every
  \<^verbatim>\<open>unsigned long\<close> holds: for \<^verbatim>\<open>%08x\<close> the bound plays no part (lemma
  \<open>fscanf_08x_store\<close> below).\<close>

definition fscanf_08x :: "string \<Rightarrow> int \<times> u32" where
  "fscanf_08x inp =
     (case fscanf_uint 16 (Some 8) inp of
        (count, neg, m) \<Rightarrow> (count, if neg then - of_int m else of_int m))"

definition fscanf_u :: "int \<Rightarrow> string \<Rightarrow> int \<times> u32" where
  "fscanf_u ulong_max inp =
     (case fscanf_uint 10 None inp of
        (count, neg, m) \<Rightarrow> (count, store_uint ulong_max neg m))"

text \<open>\<^verbatim>\<open>printf\<close> conversions \<^verbatim>\<open>%x\<close>, \<^verbatim>\<open>%08x\<close> and \<^verbatim>\<open>%u\<close> of an unsigned 32-bit value.\<close>

definition digit_char :: "int \<Rightarrow> char" where
  "digit_char d = ''0123456789abcdef'' ! nat d"

function show_uint :: "int \<Rightarrow> int \<Rightarrow> string" where
  "show_uint b n =
     (if n < b \<or> b < 2 then [digit_char n] else show_uint b (n div b) @ [digit_char (n mod b)])"
  by pat_completeness auto
termination
proof (relation "measure (\<lambda>(b, n). nat n)")
  show "wf (measure (\<lambda>(b, n). nat n))" by simp
next
  fix b n :: int
  assume a: "\<not> (n < b \<or> b < 2)"
  then have "0 < n" "1 < b" by simp_all
  then have "n div b < n" by (rule int_div_less_self)
  with \<open>0 < n\<close> show "((b, n div b), (b, n)) \<in> measure (\<lambda>(b, n). nat n)" by simp
qed

declare show_uint.simps [simp del]

definition fmt_08x :: "u32 \<Rightarrow> string" where
  "fmt_08x w = (let ds = show_uint 16 (uint w) in replicate (8 - length ds) CHR ''0'' @ ds)"

definition fmt_u :: "u32 \<Rightarrow> string" where
  "fmt_u w = show_uint 10 (uint w)"

text \<open>
  \<^verbatim>\<open>fgets(buf, n, fp)\<close> on a zero-filled buffer, read back as a C string: at most
  \<open>n - 1\<close> characters, up to and including the first newline; the C string ends at the
  first NUL.
\<close>

definition fgets :: "nat \<Rightarrow> string \<Rightarrow> string" where
  "fgets n inp =
     (let t = take (n - 1) inp;
          line = takeWhile (\<lambda>c. c \<noteq> CHR 0x0A) t;
          got = (if length line < length t then line @ [CHR 0x0A] else line)
      in takeWhile (\<lambda>c. c \<noteq> CHR 0x00) got)"

subsection \<open>C library: \<^verbatim>\<open>getopt_long\<close>\<close>

text \<open>
  \<^verbatim>\<open>getopt_long\<close> as the GNU C library documents it, with its default permutation of
  \<^verbatim>\<open>argv\<close>: options are taken from every element that starts with a dash, up to an
  element \<^verbatim>\<open>--\<close>; the other elements are the non-options left from \<^verbatim>\<open>optind\<close> on when
  it returns \<^verbatim>\<open>-1\<close>. A call returns the option's code and leaves its argument in
  \<^verbatim>\<open>optarg\<close>; an unknown or ambiguous option, or a missing argument, returns \<^verbatim>\<open>'?'\<close>.
  The codes of the program are characters and the enumerators \<^verbatim>\<open>OPT_OUTPUT_*\<close>,
  \<^verbatim>\<open>OPT_INPUT_*\<close> and \<^verbatim>\<open>OPT_VALUE_*\<close>, one per item.
\<close>

datatype item =
    I_cmdline | I_board | I_base | I_kernel_offset | I_ramdisk_offset | I_second_offset
  | I_tags_offset | I_ipl_address | I_rpm_address | I_appsbl_address | I_entrypoint
  | I_page_size
  | I_kernel | I_ramdisk | I_second | I_dt | I_aboot | I_ipl | I_rpm | I_appsbl | I_sin
  | I_sinhdr

fun key :: "item \<Rightarrow> string" where
  "key I_cmdline = ''cmdline''"
| "key I_board = ''board''"
| "key I_base = ''base''"
| "key I_kernel_offset = ''kernel_offset''"
| "key I_ramdisk_offset = ''ramdisk_offset''"
| "key I_second_offset = ''second_offset''"
| "key I_tags_offset = ''tags_offset''"
| "key I_ipl_address = ''ipl_address''"
| "key I_rpm_address = ''rpm_address''"
| "key I_appsbl_address = ''appsbl_address''"
| "key I_entrypoint = ''entrypoint''"
| "key I_page_size = ''page_size''"
| "key I_kernel = ''kernel''"
| "key I_ramdisk = ''ramdisk''"
| "key I_second = ''second''"
| "key I_dt = ''dt''"
| "key I_aboot = ''aboot''"
| "key I_ipl = ''ipl''"
| "key I_rpm = ''rpm''"
| "key I_appsbl = ''appsbl''"
| "key I_sin = ''sin''"
| "key I_sinhdr = ''sinhdr''"

datatype optcode = Chr char | OPT_OUTPUT item | OPT_INPUT item | OPT_VALUE item

datatype has_arg = no_argument | required_argument

type_synonym long_option = "string \<times> has_arg \<times> optcode"

fun short_lookup :: "string \<Rightarrow> char \<Rightarrow> has_arg option" where
  "short_lookup [] c = None"
| "short_lookup (x # xs) c =
     (if x = c \<and> c \<noteq> CHR '':''
      then Some (case xs of y # _ \<Rightarrow> if y = CHR '':'' then required_argument else no_argument
                 | [] \<Rightarrow> no_argument)
      else short_lookup xs c)"

text \<open>The characters of one element after its dash; \<open>nxt\<close> is the element that follows.
  The result is the calls' returns and whether the following element was used up.\<close>

fun short_cluster :: "string \<Rightarrow> string \<Rightarrow> string option \<Rightarrow> (optcode \<times> string) list \<times> bool" where
  "short_cluster os [] nxt = ([], False)"
| "short_cluster os (c # cs) nxt =
     (case short_lookup os c of
        None \<Rightarrow> (case short_cluster os cs nxt of (evs, u) \<Rightarrow> ((Chr CHR ''?'', []) # evs, u))
      | Some no_argument \<Rightarrow>
          (case short_cluster os cs nxt of (evs, u) \<Rightarrow> ((Chr c, []) # evs, u))
      | Some required_argument \<Rightarrow>
          if cs \<noteq> [] then ([(Chr c, cs)], False)
          else (case nxt of Some a \<Rightarrow> ([(Chr c, a)], True)
                | None \<Rightarrow> ([(Chr CHR ''?'', [])], False)))"

text \<open>A long option is matched exactly, or else by an abbreviation that fits one entry
  only (or entries that agree in argument kind and code).\<close>

definition long_lookup :: "long_option list \<Rightarrow> string \<Rightarrow> long_option option" where
  "long_lookup tbl nm =
     (case filter (\<lambda>(n, h, v). n = nm) tbl of
        e # _ \<Rightarrow> Some e
      | [] \<Rightarrow>
          (case filter (\<lambda>(n, h, v). prefix nm n) tbl of
             [] \<Rightarrow> None
           | e # es \<Rightarrow> if list_all (\<lambda>(n, h, v). (h, v) = snd e) es then Some e else None))"

definition long_opt :: "long_option list \<Rightarrow> string \<Rightarrow> string option \<Rightarrow> (optcode \<times> string) \<times> bool" where
  "long_opt tbl body nxt =
     (let nm = takeWhile (\<lambda>c. c \<noteq> CHR ''='') body;
          eq = dropWhile (\<lambda>c. c \<noteq> CHR ''='') body
      in case long_lookup tbl nm of
           None \<Rightarrow> ((Chr CHR ''?'', []), False)
         | Some (n, no_argument, v) \<Rightarrow>
             if eq \<noteq> [] then ((Chr CHR ''?'', []), False) else ((v, []), False)
         | Some (n, required_argument, v) \<Rightarrow>
             if eq \<noteq> [] then ((v, tl eq), False)
             else (case nxt of Some a \<Rightarrow> ((v, a), True)
                   | None \<Rightarrow> ((Chr CHR ''?'', []), False)))"

text \<open>All the calls of one run over the elements after \<^verbatim>\<open>argv[0]\<close>: the sequence of
  (code, \<^verbatim>\<open>optarg\<close>) returned before \<^verbatim>\<open>-1\<close>, and the non-options in their order.\<close>

fun getopt_scan :: "string \<Rightarrow> long_option list \<Rightarrow> string list \<Rightarrow> (optcode \<times> string) list \<times> string list" where
  "getopt_scan os tbl [] = ([], [])"
| "getopt_scan os tbl (a # as) =
     (if a = ''--'' then ([], as)
      else if take 2 a = ''--'' then
        (case long_opt tbl (drop 2 a) (case as of [] \<Rightarrow> None | b # _ \<Rightarrow> Some b) of
           (ev, used) \<Rightarrow>
             (case getopt_scan os tbl (if used then tl as else as) of
                (evs, pos) \<Rightarrow> (ev # evs, pos)))
      else if take 1 a = ''-'' \<and> length a > 1 then
        (case short_cluster os (tl a) (case as of [] \<Rightarrow> None | b # _ \<Rightarrow> Some b) of
           (evs1, used) \<Rightarrow>
             (case getopt_scan os tbl (if used then tl as else as) of
                (evs, pos) \<Rightarrow> (evs1 @ evs, pos)))
      else (case getopt_scan os tbl as of (evs, pos) \<Rightarrow> (evs, a # pos)))"

definition getopt_long_all :: "string \<Rightarrow> long_option list \<Rightarrow> string list \<Rightarrow> (optcode \<times> string) list \<times> string list" where
  "getopt_long_all os tbl argv = getopt_scan os tbl (tl argv)"

subsection \<open>Files\<close>

text \<open>
  The file system as the program sees it through \<^verbatim>\<open>fopen\<close>: a path names nothing
  (\<^verbatim>\<open>ENOENT\<close>), a file that may not be opened (\<^verbatim>\<open>EACCES\<close>), a regular file with its
  bytes, or a regular file that opens and has a length (not zero) but whose bytes can
  be neither read nor written (\<^verbatim>\<open>EIO\<close>). The empty path never opens (\<^verbatim>\<open>ENOENT\<close>,
  POSIX). A failing call leaves its \<^verbatim>\<open>errno\<close> as the \<open>Inl\<close> value.

  Only regular files are nodes. \<^verbatim>\<open>read_file_data\<close> does not check \<^verbatim>\<open>fseek\<close> and
  \<^verbatim>\<open>ftell\<close>, so on a directory or on a special file the length it allocates and reads
  is whatever \<^verbatim>\<open>ftell\<close> returned; such paths are outside this model.
\<close>

datatype errno = ENOENT | EACCES | EIO

datatype node = Absent | Denied | Content string | Corrupt

type_synonym fs = "string \<Rightarrow> node"

fun strerror :: "errno \<Rightarrow> string" where
  "strerror ENOENT = ''No such file or directory''"
| "strerror EACCES = ''Permission denied''"
| "strerror EIO = ''Input/output error''"

text \<open>\<^verbatim>\<open>fopen(path, "rb")\<close>: the stream is \<open>Some\<close> bytes, or \<open>None\<close> when reads fail.\<close>

definition fopen_rb :: "fs \<Rightarrow> string \<Rightarrow> errno + string option" where
  "fopen_rb fs path =
     (if path = [] then Inl ENOENT
      else case fs path of
             Absent \<Rightarrow> Inl ENOENT
           | Denied \<Rightarrow> Inl EACCES
           | Content d \<Rightarrow> Inr (Some d)
           | Corrupt \<Rightarrow> Inr None)"

text \<open>\<^verbatim>\<open>read_file_data\<close> (lines 311-332): the length of a regular file is found with
  \<^verbatim>\<open>fseek\<close> and \<^verbatim>\<open>ftell\<close>, and \<^verbatim>\<open>fread\<close> gives all its bytes, or fewer when the read
  fails, which is the failure of the function.\<close>

definition read_file_data :: "fs \<Rightarrow> string \<Rightarrow> errno + string" where
  "read_file_data fs path =
     (case fopen_rb fs path of
        Inl e \<Rightarrow> Inl e
      | Inr None \<Rightarrow> Inl EIO
      | Inr (Some d) \<Rightarrow> Inr d)"

text \<open>\<^verbatim>\<open>write_file_fmt\<close> (lines 271-288) with the formatted text, and \<^verbatim>\<open>write_file_data\<close>
  (lines 290-309): \<^verbatim>\<open>fopen(path, "wb")\<close> creates or truncates the file.

  \<^verbatim>\<open>write_file_fmt\<close> tests only the result of \<^verbatim>\<open>vfprintf\<close>, which puts the short text
  in the buffer of the stream; the buffer is written out by \<^verbatim>\<open>fclose\<close>, whose result is
  not tested. So on a file that cannot be written the function returns true and the
  text is lost. \<^verbatim>\<open>write_file_data\<close> tests \<^verbatim>\<open>fwrite\<close> and \<^verbatim>\<open>ferror\<close>: a blob is taken to be
  larger than the buffer, so that the failure shows in \<^verbatim>\<open>fwrite\<close>, while \<^verbatim>\<open>fwrite\<close> of no
  bytes returns the size asked for and succeeds on any stream that opens.\<close>

definition write_file_fmt :: "fs \<Rightarrow> string \<Rightarrow> string \<Rightarrow> errno + fs" where
  "write_file_fmt fs path text =
     (if path = [] then Inl ENOENT
      else case fs path of
             Denied \<Rightarrow> Inl EACCES
           | Corrupt \<Rightarrow> Inr fs
           | _ \<Rightarrow> Inr (fs(path := Content text)))"

definition write_file_data :: "fs \<Rightarrow> string \<Rightarrow> string \<Rightarrow> errno + fs" where
  "write_file_data fs path data =
     (if path = [] then Inl ENOENT
      else case fs path of
             Denied \<Rightarrow> Inl EACCES
           | Corrupt \<Rightarrow> if data = [] then Inr fs else Inl EIO
           | _ \<Rightarrow> Inr (fs(path := Content data)))"

subsection \<open>The boot image codec and the path library\<close>

datatype boot_type = Android | Bump | Loki | SonyElf

text \<open>The field set exchanged with the codec, as the state of an \<^verbatim>\<open>mbp::BootImage\<close>
  object: one field per accessor that unpack calls; a setter of pack stores its
  argument in the field of the same name.\<close>

record bootimage =
  kernelCmdline :: string
  boardName :: string
  kernelAddress :: u32
  ramdiskAddress :: u32
  secondBootloaderAddress :: u32
  kernelTagsAddress :: u32
  iplAddress :: u32
  rpmAddress :: u32
  appsblAddress :: u32
  entrypointAddress :: u32
  pageSize :: u32
  kernelImage :: string
  ramdiskImage :: string
  secondBootloaderImage :: string
  deviceTreeImage :: string
  abootImage :: string
  iplImage :: string
  rpmImage :: string
  appsblImage :: string
  sinImage :: string
  sinHeader :: string
  targetType :: boot_type

text \<open>The constants of \<^verbatim>\<open>mbp::BootImage\<close> (declared in \<^verbatim>\<open>libmbp/bootimage.h\<close>, which is
  not part of the file): parameters of the model.\<close>

record bootimage_consts =
  DefaultCmdline :: string
  DefaultBoard :: string
  DefaultBase :: u32
  DefaultKernelOffset :: u32
  DefaultRamdiskOffset :: u32
  DefaultSecondOffset :: u32
  DefaultTagsOffset :: u32
  DefaultIplAddress :: u32
  DefaultRpmAddress :: u32
  DefaultAppsblAddress :: u32
  DefaultEntrypointAddress :: u32
  DefaultPageSize :: u32
  BootArgsSize :: nat
  BootNameSize :: nat

text \<open>
  What the program calls outside the file and the C library: \<^verbatim>\<open>io::pathJoin\<close>,
  \<^verbatim>\<open>io::baseName\<close>, \<^verbatim>\<open>io::createDirectories\<close> and (the text of)
  \<^verbatim>\<open>io::lastErrorString\<close> of libmbpio; of the codec the freshly
  constructed \<^verbatim>\<open>BootImage\<close>, \<^verbatim>\<open>loadFile\<close> (its failure as the text that
  \<^verbatim>\<open>error_to_string(bi.error())\<close> gives) and \<^verbatim>\<open>createFile\<close>; and the platform's
  \<^verbatim>\<open>ULONG_MAX\<close>. All are parameters.
\<close>

record externals =
  pathJoin :: "string list \<Rightarrow> string"
  baseName :: "string \<Rightarrow> string"
  createDirectories :: "string \<Rightarrow> bool"
  lastErrorString :: string
  newBootImage :: bootimage
  loadFile :: "fs \<Rightarrow> string \<Rightarrow> string + bootimage"
  createFile :: "bootimage \<Rightarrow> string \<Rightarrow> bool"
  ULONG_MAX :: int

text \<open>Modelled from the spec: \<^verbatim>\<open>BootImage::setAddresses\<close>, which is defined in libmbp
  and not in this file. The spec (4.3 step 2, 4.4 step 4) has pack reconstruct each of
  the four addresses as \<open>base + offset\<close>.\<close>

definition setAddresses :: "u32 \<Rightarrow> u32 \<Rightarrow> u32 \<Rightarrow> u32 \<Rightarrow> u32 \<Rightarrow> bootimage \<Rightarrow> bootimage" where
  "setAddresses base kernel_offset ramdisk_offset second_offset tags_offset bi =
     bi\<lparr>kernelAddress := base + kernel_offset,
        ramdiskAddress := base + ramdisk_offset,
        secondBootloaderAddress := base + second_offset,
        kernelTagsAddress := base + tags_offset\<rparr>"

subsection \<open>What a run does\<close>

text \<open>A run is observed as its return value, the sequence of its calls that touch the
  outside (each file call tagged with the item whose statement makes it), the
  \<^verbatim>\<open>BootImage\<close> that \<^verbatim>\<open>loadFile\<close> gave (unpack) or that is handed to \<^verbatim>\<open>createFile\<close>
  (pack) if that call is reached, and the files left.\<close>

datatype chan = Stdout | Stderr

datatype event =
    Print chan string
  | Fopen item string
  | Fwrite item string
  | CreateDirectories string
  | LoadFile string
  | CreateFile string

record outcome =
  ret :: bool
  trace :: "event list"
  image :: "bootimage option"
  files :: fs

text \<open>A statement sequence with early \<^verbatim>\<open>return\<close>: a step either returns from the
  function with its result, or goes on with the next state.\<close>

datatype ('r, 's) ctl = Return 'r | Next 's

fun seq_steps :: "('a \<Rightarrow> 's \<Rightarrow> ('r, 's) ctl) \<Rightarrow> 'a list \<Rightarrow> 's \<Rightarrow> ('r, 's) ctl" where
  "seq_steps f [] s = Next s"
| "seq_steps f (x # xs) s =
     (case f x s of Return r \<Rightarrow> Return r | Next s' \<Rightarrow> seq_steps f xs s')"

text \<open>The usage texts, by their first line.\<close>

definition MainUsage :: string where
  "MainUsage = ''Usage: bootimgtool <command> [<args>]''"

definition UnpackUsage :: string where
  "UnpackUsage = ''Usage: bootimgtool unpack [input file] [options]''"

definition PackUsage :: string where
  "PackUsage = ''Usage: bootimgtool pack [output file] [options]''"

subsection \<open>The items\<close>

datatype item_kind = ScalarText | ScalarHex32 | ScalarDecimal32 | Blob

fun kind :: "item \<Rightarrow> item_kind" where
  "kind I_cmdline = ScalarText"
| "kind I_board = ScalarText"
| "kind I_base = ScalarHex32"
| "kind I_kernel_offset = ScalarHex32"
| "kind I_ramdisk_offset = ScalarHex32"
| "kind I_second_offset = ScalarHex32"
| "kind I_tags_offset = ScalarHex32"
| "kind I_ipl_address = ScalarHex32"
| "kind I_rpm_address = ScalarHex32"
| "kind I_appsbl_address = ScalarHex32"
| "kind I_entrypoint = ScalarHex32"
| "kind I_page_size = ScalarDecimal32"
| "kind I_kernel = Blob"
| "kind I_ramdisk = Blob"
| "kind I_second = Blob"
| "kind I_dt = Blob"
| "kind I_aboot = Blob"
| "kind I_ipl = Blob"
| "kind I_rpm = Blob"
| "kind I_appsbl = Blob"
| "kind I_sin = Blob"
| "kind I_sinhdr = Blob"

text \<open>The items in the order of the program's statements: the twelve scalars, the blobs
  that pack reads (lines 1380-1438), and the 21 items that unpack writes (no aboot).\<close>

definition scalar_items :: "item list" where
  "scalar_items =
     [I_cmdline, I_board, I_base, I_kernel_offset, I_ramdisk_offset, I_second_offset,
      I_tags_offset, I_ipl_address, I_rpm_address, I_appsbl_address, I_entrypoint,
      I_page_size]"

definition pack_blob_items :: "item list" where
  "pack_blob_items =
     [I_kernel, I_ramdisk, I_second, I_dt, I_aboot, I_ipl, I_rpm, I_appsbl, I_sin, I_sinhdr]"

definition unpack_items :: "item list" where
  "unpack_items =
     scalar_items @ [I_kernel, I_ramdisk, I_second, I_dt, I_ipl, I_rpm, I_appsbl, I_sin, I_sinhdr]"

definition pack_items :: "item list" where
  "pack_items = scalar_items @ pack_blob_items"

definition default_path :: "externals \<Rightarrow> string \<Rightarrow> string \<Rightarrow> item \<Rightarrow> string" where
  "default_path X dir pre it = pathJoin X [dir, pre @ key it]"

definition c_str :: "string \<Rightarrow> string" where
  "c_str s = takeWhile (\<lambda>c. c \<noteq> CHR 0x00) s"

subsection \<open>\<^verbatim>\<open>unpack_main\<close> (lines 349-712)\<close>

record unpack_state =
  u_no_prefix :: bool
  u_output_dir :: string
  u_prefix :: string
  u_path :: "item \<Rightarrow> string"

definition unpack_init :: unpack_state where
  "unpack_init = \<lparr>u_no_prefix = False, u_output_dir = [], u_prefix = [], u_path = (\<lambda>_. [])\<rparr>"

definition unpack_optstring :: string where
  "unpack_optstring = ''o:p:n''"

definition unpack_long_options :: "long_option list" where
  "unpack_long_options =
     [(''output'', required_argument, Chr CHR ''o''),
      (''prefix'', required_argument, Chr CHR ''p''),
      (''noprefix'', required_argument, Chr CHR ''n'')]
     @ map (\<lambda>it. (''output-'' @ key it, required_argument, OPT_OUTPUT it)) unpack_items"

text \<open>The body of the option loop for one return of \<^verbatim>\<open>getopt_long\<close> (lines 437-470);
  the loop \<^verbatim>\<open>while ((opt = getopt_long(...)) != -1)\<close> runs it on the returns in turn.
  There is no enumerator \<^verbatim>\<open>OPT_OUTPUT_ABOOT\<close>, nor any input or value code here: such a
  code falls to \<^verbatim>\<open>default\<close>.\<close>

definition unpack_option :: "optcode \<times> string \<Rightarrow> unpack_state \<Rightarrow> (bool \<times> event list, unpack_state) ctl" where
  "unpack_option ev st =
     (case ev of (opt, optarg) \<Rightarrow>
        if opt = Chr CHR ''o'' then Next (st\<lparr>u_output_dir := optarg\<rparr>)
        else if opt = Chr CHR ''p'' then Next (st\<lparr>u_prefix := optarg\<rparr>)
        else if opt = Chr CHR ''n'' then Next (st\<lparr>u_no_prefix := True\<rparr>)
        else (case opt of
                OPT_OUTPUT it \<Rightarrow>
                  if it \<noteq> I_aboot then Next (st\<lparr>u_path := (u_path st)(it := optarg)\<rparr>)
                  else Return (False, [Print Stderr UnpackUsage])
              | _ \<Rightarrow>
                  if opt = Chr CHR ''h'' then Return (True, [Print Stdout UnpackUsage])
                  else Return (False, [Print Stderr UnpackUsage])))"

definition unpack_prefix :: "externals \<Rightarrow> unpack_state \<Rightarrow> string \<Rightarrow> string" where
  "unpack_prefix X st input_file =
     (if u_no_prefix st then []
      else (if u_prefix st = [] then baseName X input_file else u_prefix st) @ ''-'')"

definition unpack_dir :: "unpack_state \<Rightarrow> string" where
  "unpack_dir st = (if u_output_dir st = [] then ''.'' else u_output_dir st)"

text \<open>Lines 494-535: the path of each item after the defaults are filled in.\<close>

definition unpack_path :: "externals \<Rightarrow> unpack_state \<Rightarrow> string \<Rightarrow> item \<Rightarrow> string" where
  "unpack_path X st input_file it =
     (if u_path st it = []
      then default_path X (unpack_dir st) (unpack_prefix X st input_file) it
      else u_path st it)"

text \<open>Lines 576-581: the base and the offsets, in unsigned 32-bit arithmetic.\<close>

definition unpack_base :: "bootimage_consts \<Rightarrow> bootimage \<Rightarrow> u32" where
  "unpack_base K bi = kernelAddress bi - DefaultKernelOffset K"

definition unpack_kernel_offset :: "bootimage_consts \<Rightarrow> bootimage \<Rightarrow> u32" where
  "unpack_kernel_offset K bi = DefaultKernelOffset K"

definition unpack_ramdisk_offset :: "bootimage_consts \<Rightarrow> bootimage \<Rightarrow> u32" where
  "unpack_ramdisk_offset K bi = ramdiskAddress bi - unpack_base K bi"

definition unpack_second_offset :: "bootimage_consts \<Rightarrow> bootimage \<Rightarrow> u32" where
  "unpack_second_offset K bi = secondBootloaderAddress bi - unpack_base K bi"

definition unpack_tags_offset :: "bootimage_consts \<Rightarrow> bootimage \<Rightarrow> u32" where
  "unpack_tags_offset K bi = kernelTagsAddress bi - unpack_base K bi"

text \<open>Lines 583-707: what is written for each item, the formatted text of a scalar
  (\<^verbatim>\<open>"%s\n"\<close>, \<^verbatim>\<open>"%08x\n"\<close>, \<^verbatim>\<open>"%u\n"\<close>) or the bytes of a blob.\<close>

fun unpack_content :: "bootimage_consts \<Rightarrow> bootimage \<Rightarrow> item \<Rightarrow> string" where
  "unpack_content K bi I_cmdline = c_str (kernelCmdline bi) @ ''\<newline>''"
| "unpack_content K bi I_board = c_str (boardName bi) @ ''\<newline>''"
| "unpack_content K bi I_base = fmt_08x (unpack_base K bi) @ ''\<newline>''"
| "unpack_content K bi I_kernel_offset = fmt_08x (unpack_kernel_offset K bi) @ ''\<newline>''"
| "unpack_content K bi I_ramdisk_offset = fmt_08x (unpack_ramdisk_offset K bi) @ ''\<newline>''"
| "unpack_content K bi I_second_offset = fmt_08x (unpack_second_offset K bi) @ ''\<newline>''"
| "unpack_content K bi I_tags_offset = fmt_08x (unpack_tags_offset K bi) @ ''\<newline>''"
| "unpack_content K bi I_ipl_address = fmt_08x (iplAddress bi) @ ''\<newline>''"
| "unpack_content K bi I_rpm_address = fmt_08x (rpmAddress bi) @ ''\<newline>''"
| "unpack_content K bi I_appsbl_address = fmt_08x (appsblAddress bi) @ ''\<newline>''"
| "unpack_content K bi I_entrypoint = fmt_08x (entrypointAddress bi) @ ''\<newline>''"
| "unpack_content K bi I_page_size = fmt_u (pageSize bi) @ ''\<newline>''"
| "unpack_content K bi I_kernel = kernelImage bi"
| "unpack_content K bi I_ramdisk = ramdiskImage bi"
| "unpack_content K bi I_second = secondBootloaderImage bi"
| "unpack_content K bi I_dt = deviceTreeImage bi"
| "unpack_content K bi I_aboot = []"
| "unpack_content K bi I_ipl = iplImage bi"
| "unpack_content K bi I_rpm = rpmImage bi"
| "unpack_content K bi I_appsbl = appsblImage bi"
| "unpack_content K bi I_sin = sinImage bi"
| "unpack_content K bi I_sinhdr = sinHeader bi"

text \<open>One write statement: on failure the path and \<^verbatim>\<open>strerror(errno)\<close> go to standard
  error and the function returns false; the files written before stay.\<close>

definition unpack_write ::
    "bootimage_consts \<Rightarrow> bootimage \<Rightarrow> (item \<Rightarrow> string) \<Rightarrow> item \<Rightarrow> fs \<times> event list
      \<Rightarrow> (fs \<times> event list, fs \<times> event list) ctl" where
  "unpack_write K bi path it s =
     (case s of (fs, tr) \<Rightarrow>
        let p = path it; tr' = tr @ [Fwrite it p] in
        case (if kind it = Blob then write_file_data fs p (unpack_content K bi it)
              else write_file_fmt fs p (unpack_content K bi it)) of
          Inl e \<Rightarrow> Return (fs, tr' @ [Print Stderr (p @ '': '' @ strerror e @ ''\<newline>'')])
        | Inr fs' \<Rightarrow> Next (fs', tr'))"

text \<open>The function from line 473 on, after the option loop. The listing of the paths on
  standard output is kept as its heading.\<close>

definition unpack_body :: "externals \<Rightarrow> bootimage_consts \<Rightarrow> fs \<Rightarrow> unpack_state \<Rightarrow> string list \<Rightarrow> outcome" where
  "unpack_body X K fs st pos =
     (case pos of
        [input_file] \<Rightarrow>
          (let output_dir = unpack_dir st;
               path = unpack_path X st input_file;
               tr = [Print Stdout ''Output files:'', CreateDirectories output_dir]
           in if \<not> createDirectories X output_dir
              then \<lparr>ret = False,
                    trace = tr @ [Print Stderr (output_dir @ '': Failed to create directory: ''
                                                 @ lastErrorString X @ ''\<newline>'')],
                    image = None, files = fs\<rparr>
              else
                (case loadFile X fs input_file of
                   Inl msg \<Rightarrow>
                     \<lparr>ret = False,
                      trace = tr @ [LoadFile input_file, Print Stderr (msg @ ''\<newline>'')],
                      image = None, files = fs\<rparr>
                 | Inr bi \<Rightarrow>
                     (case seq_steps (unpack_write K bi path) unpack_items
                             (fs, tr @ [LoadFile input_file]) of
                        Return (fs', tr') \<Rightarrow>
                          \<lparr>ret = False, trace = tr', image = Some bi, files = fs'\<rparr>
                      | Next (fs', tr') \<Rightarrow>
                          \<lparr>ret = True, trace = tr' @ [Print Stdout ''\<newline>Done\<newline>''],
                           image = Some bi, files = fs'\<rparr>)))
      | _ \<Rightarrow> \<lparr>ret = False, trace = [Print Stderr UnpackUsage], image = None, files = fs\<rparr>)"

definition unpack_main :: "externals \<Rightarrow> bootimage_consts \<Rightarrow> fs \<Rightarrow> string list \<Rightarrow> outcome" where
  "unpack_main X K fs argv =
     (case getopt_long_all unpack_optstring unpack_long_options argv of
        (evs, pos) \<Rightarrow>
          (case seq_steps unpack_option evs unpack_init of
             Return (b, t) \<Rightarrow> \<lparr>ret = b, trace = t, image = None, files = fs\<rparr>
           | Next st \<Rightarrow> unpack_body X K fs st pos))"

subsection \<open>\<^verbatim>\<open>pack_main\<close> (lines 714-1466)\<close>

text \<open>
  The local variables: the 22 paths, the map \<^verbatim>\<open>values\<close> (keyed here by the item of the
  \<^verbatim>\<open>OPT_VALUE_*\<close> code; an absent key reads as false), the two text values, the ten
  numbers, the ten blobs and the target type. The numbers are not initialised in the
  source and are assigned before every use; they start at 0 here.
\<close>

record pack_state =
  p_no_prefix :: bool
  p_input_dir :: string
  p_prefix :: string
  p_path :: "item \<Rightarrow> string"
  p_values :: "item \<Rightarrow> bool"
  p_text :: "item \<Rightarrow> string"
  p_num :: "item \<Rightarrow> u32"
  p_image :: "item \<Rightarrow> string"
  p_type :: boot_type
  p_trace :: "event list"

definition pack_init :: pack_state where
  "pack_init =
     \<lparr>p_no_prefix = False, p_input_dir = [], p_prefix = [], p_path = (\<lambda>_. []),
      p_values = (\<lambda>_. False), p_text = (\<lambda>_. []), p_num = (\<lambda>_. 0), p_image = (\<lambda>_. []),
      p_type = Android, p_trace = []\<rparr>"

definition pack_optstring :: string where
  "pack_optstring = ''i:p:nt:''"

definition pack_long_options :: "long_option list" where
  "pack_long_options =
     [(''input'', required_argument, Chr CHR ''i''),
      (''prefix'', required_argument, Chr CHR ''p''),
      (''noprefix'', required_argument, Chr CHR ''n''),
      (''type'', required_argument, Chr CHR ''t'')]
     @ map (\<lambda>it. (''input-'' @ key it, required_argument, OPT_INPUT it)) pack_items
     @ map (\<lambda>it. (''value-'' @ key it, required_argument, OPT_VALUE it)) scalar_items"

definition parse_type :: "string \<Rightarrow> boot_type option" where
  "parse_type optarg =
     (if optarg = ''android'' then Some Android
      else if optarg = ''bump'' then Some Bump
      else if optarg = ''loki'' then Some Loki
      else if optarg = ''sonyelf'' then Some SonyElf
      else None)"

text \<open>The body of the option loop for one return of \<^verbatim>\<open>getopt_long\<close> (lines 858-1009).
  A value option clears the item's path and marks the item in \<^verbatim>\<open>values\<close> before its
  literal is parsed. Codes without an enumerator in this function fall to \<^verbatim>\<open>default\<close>.\<close>

definition pack_option :: "externals \<Rightarrow> optcode \<times> string \<Rightarrow> pack_state \<Rightarrow> (bool \<times> event list, pack_state) ctl" where
  "pack_option X ev st =
     (case ev of (opt, optarg) \<Rightarrow>
        if opt = Chr CHR ''i'' then Next (st\<lparr>p_input_dir := optarg\<rparr>)
        else if opt = Chr CHR ''p'' then Next (st\<lparr>p_prefix := optarg\<rparr>)
        else if opt = Chr CHR ''n'' then Next (st\<lparr>p_no_prefix := True\<rparr>)
        else (case opt of
                OPT_INPUT it \<Rightarrow> Next (st\<lparr>p_path := (p_path st)(it := optarg)\<rparr>)
              | OPT_VALUE it \<Rightarrow>
                  (let st' = st\<lparr>p_path := (p_path st)(it := []),
                                 p_values := (p_values st)(it := True)\<rparr>
                   in case kind it of
                        ScalarText \<Rightarrow> Next (st'\<lparr>p_text := (p_text st)(it := optarg)\<rparr>)
                      | ScalarHex32 \<Rightarrow>
                          (case str_to_uint32 (ULONG_MAX X) 16 optarg of
                             None \<Rightarrow> Return (False,
                                 [Print Stderr (''Invalid '' @ key it @ '': '' @ optarg @ ''\<newline>'')])
                           | Some v \<Rightarrow> Next (st'\<lparr>p_num := (p_num st)(it := v)\<rparr>))
                      | ScalarDecimal32 \<Rightarrow>
                          (case str_to_uint32 (ULONG_MAX X) 10 optarg of
                             None \<Rightarrow> Return (False,
                                 [Print Stderr (''Invalid '' @ key it @ '': '' @ optarg @ ''\<newline>'')])
                           | Some v \<Rightarrow> Next (st'\<lparr>p_num := (p_num st)(it := v)\<rparr>))
                      | Blob \<Rightarrow> Return (False, [Print Stderr PackUsage]))
              | _ \<Rightarrow>
                  if opt = Chr CHR ''t'' then
                    (case parse_type optarg of
                       Some ty \<Rightarrow> Next (st\<lparr>p_type := ty\<rparr>)
                     | None \<Rightarrow> Return (False,
                         [Print Stderr (''Invalid type: '' @ optarg @ ''\<newline>'')]))
                  else if opt = Chr CHR ''h'' then Return (True, [Print Stdout PackUsage])
                  else Return (False, [Print Stderr PackUsage])))"

definition pack_prefix :: "externals \<Rightarrow> pack_state \<Rightarrow> string \<Rightarrow> string" where
  "pack_prefix X st output_file =
     (if p_no_prefix st then []
      else (if p_prefix st = [] then baseName X output_file else p_prefix st) @ ''-'')"

definition pack_dir :: "pack_state \<Rightarrow> string" where
  "pack_dir st = (if p_input_dir st = [] then ''.'' else p_input_dir st)"

text \<open>Lines 1038-1079: a scalar gets the default path when its path is empty and it has
  no value; a blob when its path is empty; there is no statement for \<^verbatim>\<open>path_aboot\<close>.\<close>

definition pack_path :: "externals \<Rightarrow> pack_state \<Rightarrow> string \<Rightarrow> item \<Rightarrow> string" where
  "pack_path X st output_file it =
     (if kind it = Blob then
        (if it \<noteq> I_aboot \<and> p_path st it = []
         then default_path X (pack_dir st) (pack_prefix X st output_file) it
         else p_path st it)
      else
        (if p_path st it = [] \<and> \<not> p_values st it
         then default_path X (pack_dir st) (pack_prefix X st output_file) it
         else p_path st it))"

fun default_text :: "bootimage_consts \<Rightarrow> item \<Rightarrow> string" where
  "default_text K I_cmdline = DefaultCmdline K"
| "default_text K I_board = DefaultBoard K"
| "default_text K _ = []"

fun default_num :: "bootimage_consts \<Rightarrow> item \<Rightarrow> u32" where
  "default_num K I_base = DefaultBase K"
| "default_num K I_kernel_offset = DefaultKernelOffset K"
| "default_num K I_ramdisk_offset = DefaultRamdiskOffset K"
| "default_num K I_second_offset = DefaultSecondOffset K"
| "default_num K I_tags_offset = DefaultTagsOffset K"
| "default_num K I_ipl_address = DefaultIplAddress K"
| "default_num K I_rpm_address = DefaultRpmAddress K"
| "default_num K I_appsbl_address = DefaultAppsblAddress K"
| "default_num K I_entrypoint = DefaultEntrypointAddress K"
| "default_num K I_page_size = DefaultPageSize K"
| "default_num K _ = 0"

definition text_size :: "bootimage_consts \<Rightarrow> item \<Rightarrow> nat" where
  "text_size K it = (if it = I_cmdline then BootArgsSize K else BootNameSize K)"

definition io_error :: "string \<Rightarrow> errno \<Rightarrow> event" where
  "io_error p e = Print Stderr (p @ '': '' @ strerror e @ ''\<newline>'')"

text \<open>The message for a number that is not converted; the format is printed between
  single quotes (the character \<open>0x27\<close>).\<close>

definition format_error :: "string \<Rightarrow> string \<Rightarrow> event" where
  "format_error p fmt =
     Print Stderr (p @ '': Error: expected '' @ [CHR 0x27] @ fmt @ [CHR 0x27] @ '' format\<newline>'')"

text \<open>
  One of the twelve blocks of lines 1146-1378. Without a value the file is opened; any
  failure of \<^verbatim>\<open>fopen\<close> takes the \<^verbatim>\<open>else\<close> branch, which assigns the default; a stream
  whose read fails (\<^verbatim>\<open>ferror\<close>) returns false with \<^verbatim>\<open>strerror(errno)\<close>; a number that
  \<^verbatim>\<open>fscanf\<close> does not convert (\<^verbatim>\<open>count != 1\<close>) returns false with the format error.
\<close>

definition read_scalar :: "externals \<Rightarrow> bootimage_consts \<Rightarrow> fs \<Rightarrow> item \<Rightarrow> pack_state \<Rightarrow> (bool \<times> event list, pack_state) ctl" where
  "read_scalar X K fs it st =
     (if p_values st it then Next st
      else
        let p = p_path st it; tr = p_trace st @ [Fopen it p] in
        case fopen_rb fs p of
          Inl e \<Rightarrow>
            (if kind it = ScalarText
             then Next (st\<lparr>p_trace := tr, p_text := (p_text st)(it := default_text K it)\<rparr>)
             else Next (st\<lparr>p_trace := tr, p_num := (p_num st)(it := default_num K it)\<rparr>))
        | Inr None \<Rightarrow> Return (False, tr @ [io_error p EIO])
        | Inr (Some d) \<Rightarrow>
            (case kind it of
               ScalarText \<Rightarrow>
                 Next (st\<lparr>p_trace := tr,
                          p_text := (p_text st)
                            (it := takeWhile (\<lambda>c. c \<noteq> CHR 0x0A) (fgets (text_size K it) d))\<rparr>)
             | ScalarHex32 \<Rightarrow>
                 (case fscanf_08x d of (count, v) \<Rightarrow>
                    if count \<noteq> 1 then Return (False, tr @ [format_error p ''%08x''])
                    else Next (st\<lparr>p_trace := tr, p_num := (p_num st)(it := v)\<rparr>))
             | ScalarDecimal32 \<Rightarrow>
                 (case fscanf_u (ULONG_MAX X) d of (count, v) \<Rightarrow>
                    if count \<noteq> 1 then Return (False, tr @ [format_error p ''%u''])
                    else Next (st\<lparr>p_trace := tr, p_num := (p_num st)(it := v)\<rparr>))
             | Blob \<Rightarrow> Next (st\<lparr>p_trace := tr\<rparr>)))"

text \<open>One of the ten statements of lines 1380-1438: kernel and ramdisk fail on any
  failure of \<^verbatim>\<open>read_file_data\<close>, the others unless \<^verbatim>\<open>errno\<close> is \<^verbatim>\<open>ENOENT\<close>.\<close>

definition read_blob :: "fs \<Rightarrow> item \<Rightarrow> pack_state \<Rightarrow> (bool \<times> event list, pack_state) ctl" where
  "read_blob fs it st =
     (let p = p_path st it; tr = p_trace st @ [Fopen it p] in
      case read_file_data fs p of
        Inr d \<Rightarrow> Next (st\<lparr>p_trace := tr, p_image := (p_image st)(it := d)\<rparr>)
      | Inl e \<Rightarrow>
          if it = I_kernel \<or> it = I_ramdisk \<or> e \<noteq> ENOENT
          then Return (False, tr @ [io_error p e])
          else Next (st\<lparr>p_trace := tr\<rparr>))"

text \<open>Lines 1440-1455: the setters, each storing its argument in the field of its
  accessor, and \<^verbatim>\<open>setAddresses\<close>. The ipl, rpm, appsbl and entrypoint addresses read
  before are passed to no setter.\<close>

definition pack_image :: "externals \<Rightarrow> pack_state \<Rightarrow> bootimage" where
  "pack_image X st =
     (setAddresses (p_num st I_base) (p_num st I_kernel_offset) (p_num st I_ramdisk_offset)
        (p_num st I_second_offset) (p_num st I_tags_offset)
        ((newBootImage X)\<lparr>kernelCmdline := p_text st I_cmdline,
                           boardName := p_text st I_board\<rparr>))
     \<lparr>pageSize := p_num st I_page_size,
      kernelImage := p_image st I_kernel,
      ramdiskImage := p_image st I_ramdisk,
      secondBootloaderImage := p_image st I_second,
      deviceTreeImage := p_image st I_dt,
      abootImage := p_image st I_aboot,
      iplImage := p_image st I_ipl,
      rpmImage := p_image st I_rpm,
      appsblImage := p_image st I_appsbl,
      sinImage := p_image st I_sin,
      sinHeader := p_image st I_sinhdr,
      targetType := p_type st\<rparr>"

definition loki_error :: event where
  "loki_error = Print Stderr ''An aboot image must be specified to create a loki image\<newline>''"

text \<open>Lines 1146-1438: the scalars in their order, then the blobs in theirs.\<close>

definition pack_read :: "externals \<Rightarrow> bootimage_consts \<Rightarrow> fs \<Rightarrow> pack_state \<Rightarrow> (bool \<times> event list, pack_state) ctl" where
  "pack_read X K fs st =
     (case seq_steps (read_scalar X K fs) scalar_items st of
        Return r \<Rightarrow> Return r
      | Next st2 \<Rightarrow> seq_steps (read_blob fs) pack_blob_items st2)"

text \<open>Lines 1023-1139: the paths are settled and the inputs listed on standard output
  (the listing is kept as its heading).\<close>

definition pack_start :: "externals \<Rightarrow> pack_state \<Rightarrow> string \<Rightarrow> pack_state" where
  "pack_start X st output_file =
     st\<lparr>p_path := pack_path X st output_file, p_trace := [Print Stdout ''Input files:'']\<rparr>"

text \<open>The function from line 1012 on, after the option loop.\<close>

definition pack_body :: "externals \<Rightarrow> bootimage_consts \<Rightarrow> fs \<Rightarrow> pack_state \<Rightarrow> string list \<Rightarrow> outcome" where
  "pack_body X K fs st pos =
     (if p_type st = Loki \<and> p_path st I_aboot = []
      then \<lparr>ret = False, trace = [loki_error], image = None, files = fs\<rparr>
      else
        (case pos of
           [output_file] \<Rightarrow>
             (case pack_read X K fs (pack_start X st output_file) of
                Return (b, t) \<Rightarrow> \<lparr>ret = b, trace = t, image = None, files = fs\<rparr>
              | Next st3 \<Rightarrow>
                  (let bi = pack_image X st3 in
                   if \<not> createFile X bi output_file
                   then \<lparr>ret = False,
                         trace = p_trace st3 @ [CreateFile output_file,
                                   Print Stderr ''Failed to create boot image\<newline>''],
                         image = Some bi, files = fs\<rparr>
                   else \<lparr>ret = True,
                         trace = p_trace st3 @ [CreateFile output_file,
                                   Print Stdout ''\<newline>Done\<newline>''],
                         image = Some bi, files = fs\<rparr>))
         | _ \<Rightarrow> \<lparr>ret = False, trace = [Print Stderr PackUsage], image = None, files = fs\<rparr>))"

definition pack_main :: "externals \<Rightarrow> bootimage_consts \<Rightarrow> fs \<Rightarrow> string list \<Rightarrow> outcome" where
  "pack_main X K fs argv =
     (case getopt_long_all pack_optstring pack_long_options argv of
        (evs, pos) \<Rightarrow>
          (case seq_steps (pack_option X) evs pack_init of
             Return (b, t) \<Rightarrow> \<lparr>ret = b, trace = t, image = None, files = fs\<rparr>
           | Next st \<Rightarrow> pack_body X K fs st pos))"


text \<open>For the proofs: the events that reading may add to the trace (an open of an
  item's path, for a blob or a scalar without a value, or an error message), and what
  the reading statements keep.\<close>

definition read_event :: "pack_state \<Rightarrow> event \<Rightarrow> bool" where
  "read_event st e \<longleftrightarrow>
     (\<exists>j. e = Fopen j (p_path st j) \<and> (kind j = Blob \<or> \<not> p_values st j))
     \<or> (\<exists>m. e = Print Stderr m)"

definition read_inv :: "pack_state \<Rightarrow> pack_state \<Rightarrow> bool" where
  "read_inv st t \<longleftrightarrow>
     p_values t = p_values st \<and> p_path t = p_path st \<and> p_type t = p_type st
     \<and> (\<forall>e\<in>set (p_trace t). e \<in> set (p_trace st) \<or> read_event st e)"

subsection \<open>\<^verbatim>\<open>main\<close> (lines 1468-1489)\<close>

definition EXIT_SUCCESS :: int where
  "EXIT_SUCCESS = 0"

definition EXIT_FAILURE :: int where
  "EXIT_FAILURE = 1"

text \<open>The exit status and what the run did. The subcommand receives \<^verbatim>\<open>argv\<close> from its
  own name on.\<close>

definition main :: "externals \<Rightarrow> bootimage_consts \<Rightarrow> fs \<Rightarrow> string list \<Rightarrow> int \<times> outcome" where
  "main X K fs argv =
     (if length argv < 2
      then (EXIT_FAILURE, \<lparr>ret = False, trace = [Print Stdout MainUsage], image = None, files = fs\<rparr>)
      else
        let command = argv ! 1 in
        if command = ''unpack'' then
          (let r = unpack_main X K fs (tl argv)
           in (if ret r then EXIT_SUCCESS else EXIT_FAILURE, r))
        else if command = ''pack'' then
          (let r = pack_main X K fs (tl argv)
           in (if ret r then EXIT_SUCCESS else EXIT_FAILURE, r))
        else (EXIT_FAILURE,
              \<lparr>ret = False, trace = [Print Stderr MainUsage], image = None, files = fs\<rparr>))"

subsection \<open>A sample environment\<close>

text \<open>
  Concrete values for the parameters, for running the model on command lines: a path
  library that joins with one slash and takes the part after the last slash, a codec
  that loads every file and creates every image, a 64-bit \<^verbatim>\<open>unsigned long\<close>, and the
  defaults of the Android boot image header.
\<close>

definition sample_join :: "string list \<Rightarrow> string" where
  "sample_join cs =
     (case cs of
        [d, f] \<Rightarrow> (if d \<noteq> [] \<and> last d = CHR ''/'' then d @ f else d @ ''/'' @ f)
      | _ \<Rightarrow> concat cs)"

definition sample_base :: "string \<Rightarrow> string" where
  "sample_base p = rev (takeWhile (\<lambda>c. c \<noteq> CHR ''/'') (rev p))"

definition sample_image :: bootimage where
  "sample_image =
     \<lparr>kernelCmdline = [], boardName = [], kernelAddress = 0, ramdiskAddress = 0,
      secondBootloaderAddress = 0, kernelTagsAddress = 0, iplAddress = 0, rpmAddress = 0,
      appsblAddress = 0, entrypointAddress = 0, pageSize = 0, kernelImage = [],
      ramdiskImage = [], secondBootloaderImage = [], deviceTreeImage = [], abootImage = [],
      iplImage = [], rpmImage = [], appsblImage = [], sinImage = [], sinHeader = [],
      targetType = Android\<rparr>"

text \<open>What the sample codec loads: the bytes of the file as the kernel, and addresses
  with the ramdisk below the base, so that its offset wraps around.\<close>

definition sample_loaded :: "string \<Rightarrow> bootimage" where
  "sample_loaded d =
     sample_image\<lparr>kernelCmdline := ''console=ttyS0'', boardName := ''board'',
                  kernelAddress := 0x80208000, ramdiskAddress := 0x00001000,
                  secondBootloaderAddress := 0x81100000, kernelTagsAddress := 0x80200100,
                  pageSize := 4096, kernelImage := d\<rparr>"

definition sample_X :: externals where
  "sample_X =
     \<lparr>pathJoin = sample_join, baseName = sample_base, createDirectories = (\<lambda>_. True),
      lastErrorString = ''Permission denied'', newBootImage = sample_image,
      loadFile = (\<lambda>fs p. case fs p of Content d \<Rightarrow> Inr (sample_loaded d)
                          | _ \<Rightarrow> Inl (''Failed to open file: '' @ p)),
      createFile = (\<lambda>_ _. True), ULONG_MAX = 18446744073709551615\<rparr>"

definition sample_K :: bootimage_consts where
  "sample_K =
     \<lparr>DefaultCmdline = [], DefaultBoard = [], DefaultBase = 0x10000000,
      DefaultKernelOffset = 0x00008000, DefaultRamdiskOffset = 0x01000000,
      DefaultSecondOffset = 0x00f00000, DefaultTagsOffset = 0x00000100,
      DefaultIplAddress = 0, DefaultRpmAddress = 0, DefaultAppsblAddress = 0,
      DefaultEntrypointAddress = 0, DefaultPageSize = 2048, BootArgsSize = 512,
      BootNameSize = 16\<rparr>"

text \<open>A directory with a kernel and a (zero-length) ramdisk for \<^verbatim>\<open>out.img\<close>.\<close>

definition sample_fs :: fs where
  "sample_fs =
     (\<lambda>_. Absent)(''./out.img-kernel'' := Content ''KERNEL'', ''./out.img-ramdisk'' := Content [])"


section \<open>Properties\<close>

subsection \<open>Statement sequences\<close>

lemma seq_steps_append:
  "seq_steps f (xs @ ys) s =
     (case seq_steps f xs s of Return r \<Rightarrow> Return r | Next s' \<Rightarrow> seq_steps f ys s')"
  by (induction xs arbitrary: s) (auto split: ctl.splits)

lemma seq_steps_Next_invariant:
  assumes "seq_steps f xs s = Next s'" and "P s"
    and "\<And>x t t'. x \<in> set xs \<Longrightarrow> P t \<Longrightarrow> f x t = Next t' \<Longrightarrow> P t'"
  shows "P s'"
  using assms
proof (induction xs arbitrary: s)
  case Nil
  then show ?case by simp
next
  case (Cons x xs)
  from Cons.prems(1) obtain t where t: "f x s = Next t" and rest: "seq_steps f xs t = Next s'"
    by (auto split: ctl.splits)
  have "P t" using Cons.prems(3) [of x s t] Cons.prems(2) t by simp
  moreover have "\<And>y u u'. y \<in> set xs \<Longrightarrow> P u \<Longrightarrow> f y u = Next u' \<Longrightarrow> P u'"
    using Cons.prems(3) by (meson list.set_intros(2))
  ultimately show ?case by (rule Cons.IH [OF rest])
qed

lemma seq_steps_Return_source:
  assumes "seq_steps f xs s = Return r" and "P s"
    and "\<And>x t t'. x \<in> set xs \<Longrightarrow> P t \<Longrightarrow> f x t = Next t' \<Longrightarrow> P t'"
  shows "\<exists>x t. x \<in> set xs \<and> P t \<and> f x t = Return r"
  using assms
proof (induction xs arbitrary: s)
  case Nil
  then show ?case by simp
next
  case (Cons x xs)
  show ?case
  proof (cases "f x s")
    case (Return r')
    with Cons.prems show ?thesis by auto
  next
    case (Next t)
    then have rest: "seq_steps f xs t = Return r" using Cons.prems(1) by simp
    have Pt: "P t" using Cons.prems(3) [of x s t] Cons.prems(2) Next by simp
    have step: "\<And>y u u'. y \<in> set xs \<Longrightarrow> P u \<Longrightarrow> f y u = Next u' \<Longrightarrow> P u'"
      using Cons.prems(3) by (meson list.set_intros(2))
    have "\<exists>y u. y \<in> set xs \<and> P u \<and> f y u = Return r"
    proof (rule Cons.IH [OF rest Pt])
      fix y u u'
      assume "y \<in> set xs" "P u" "f y u = Next u'"
      then show "P u'" by (rule step)
    qed
    then show ?thesis by (meson list.set_intros(2))
  qed
qed

lemma seq_steps_split:
  "seq_steps f (pre @ x # post) s = Next s' \<Longrightarrow>
     \<exists>s1 s2. seq_steps f pre s = Next s1 \<and> f x s1 = Next s2 \<and> seq_steps f post s2 = Next s'"
  by (auto simp: seq_steps_append split: ctl.splits)



subsection \<open>What \<^verbatim>\<open>getopt_long\<close> can return\<close>

lemma short_cluster_codes:
  "ev \<in> set (fst (short_cluster os cs nxt)) \<Longrightarrow>
     fst ev = Chr CHR ''?'' \<or> (\<exists>c. fst ev = Chr c \<and> short_lookup os c \<noteq> None)"
  by (induction os cs nxt rule: short_cluster.induct)
     (auto split: option.splits has_arg.splits prod.splits if_splits)

lemma filter_head_member: "filter P xs = y # ys \<Longrightarrow> y \<in> set xs"
  by (metis filter_is_subset list.set_intros(1) subsetD)

lemma long_lookup_in_table: "long_lookup tbl nm = Some e \<Longrightarrow> e \<in> set tbl"
  unfolding long_lookup_def
  by (auto split: list.splits if_splits dest: filter_head_member)

lemma long_opt_codes:
  "fst (fst (long_opt tbl body nxt)) = Chr CHR ''?'' \<or>
     (\<exists>n h. (n, h, fst (fst (long_opt tbl body nxt))) \<in> set tbl)"
  unfolding long_opt_def Let_def
  by (auto split: option.splits has_arg.splits prod.splits dest!: long_lookup_in_table)

lemma getopt_scan_codes:
  "ev \<in> set (fst (getopt_scan os tbl args)) \<Longrightarrow>
     fst ev = Chr CHR ''?'' \<or> (\<exists>c. fst ev = Chr c \<and> short_lookup os c \<noteq> None)
     \<or> (\<exists>n h. (n, h, fst ev) \<in> set tbl)"
proof (induction os tbl args arbitrary: ev rule: getopt_scan.induct)
  case (1 os tbl)
  then show ?case by simp
next
  case (2 os tbl a as)
  let ?nxt = "case as of [] \<Rightarrow> None | b # _ \<Rightarrow> Some b"
  show ?case
  proof (cases "a = ''--''")
    case True
    with 2(4) show ?thesis by simp
  next
    case nodd: False
    show ?thesis
    proof (cases "take 2 a = ''--''")
      case True
      obtain e used where lo: "long_opt tbl (drop 2 a) ?nxt = (e, used)" by (metis surj_pair)
      obtain evs pos where rest: "getopt_scan os tbl (if used then tl as else as) = (evs, pos)"
        by (metis surj_pair)
      from 2(4) nodd True lo rest have "ev = e \<or> ev \<in> set evs" by simp
      then show ?thesis
      proof
        assume "ev = e"
        with long_opt_codes [of tbl "drop 2 a" ?nxt] lo show ?thesis by auto
      next
        assume "ev \<in> set evs"
        with 2(1) [OF nodd True lo [symmetric], of ev] rest show ?thesis by simp
      qed
    next
      case nolong: False
      show ?thesis
      proof (cases "take 1 a = ''-'' \<and> length a > 1")
        case True
        obtain evs1 used where sc: "short_cluster os (tl a) ?nxt = (evs1, used)" by (metis surj_pair)
        obtain evs pos where rest: "getopt_scan os tbl (if used then tl as else as) = (evs, pos)"
          by (metis surj_pair)
        from 2(4) nodd nolong True sc rest have "ev \<in> set evs1 \<or> ev \<in> set evs" by auto
        then show ?thesis
        proof
          assume "ev \<in> set evs1"
          with short_cluster_codes [of ev os "tl a" ?nxt] sc show ?thesis by auto
        next
          assume "ev \<in> set evs"
          with 2(2) [OF nodd nolong True sc [symmetric], of ev] rest show ?thesis by simp
        qed
      next
        case False
        obtain evs pos where rest: "getopt_scan os tbl as = (evs, pos)" by (metis surj_pair)
        from 2(4) nodd nolong False rest have "ev \<in> set evs" by auto
        with 2(3) [OF nodd nolong False, of ev] rest show ?thesis by simp
      qed
    qed
  qed
qed

lemma pack_getopt_never_h: "ev \<in> set (fst (getopt_long_all pack_optstring pack_long_options argv)) \<Longrightarrow> fst ev \<noteq> Chr CHR ''h''"
  unfolding getopt_long_all_def
  by (drule getopt_scan_codes) (auto simp: pack_optstring_def pack_long_options_def)

lemma unpack_getopt_never_h: "ev \<in> set (fst (getopt_long_all unpack_optstring unpack_long_options argv)) \<Longrightarrow> fst ev \<noteq> Chr CHR ''h''"
  unfolding getopt_long_all_def
  by (drule getopt_scan_codes) (auto simp: unpack_optstring_def unpack_long_options_def)

subsection \<open>The option loop of pack, step by step\<close>

lemmas pack_option_splits = optcode.splits item_kind.splits option.splits if_splits prod.splits

lemma pack_option_trace: "pack_option X ev st = Next st' \<Longrightarrow> p_trace st' = p_trace st"
  by (auto simp: pack_option_def Let_def split: pack_option_splits)

lemma pack_option_values_mono:
  "pack_option X ev st = Next st' \<Longrightarrow> p_values st it \<Longrightarrow> p_values st' it"
  by (auto simp: pack_option_def Let_def split: pack_option_splits)





lemma pack_option_frame_type:
  "pack_option X ev st = Next st' \<Longrightarrow> fst ev \<noteq> Chr CHR ''t'' \<Longrightarrow> p_type st' = p_type st"
  by (auto simp: pack_option_def Let_def split: pack_option_splits)

lemma pack_option_type:
  "pack_option X (Chr CHR ''t'', a) st = Next st' \<Longrightarrow> parse_type a = Some (p_type st')"
  by (auto simp: pack_option_def Let_def split: pack_option_splits)

lemma pack_option_Return:
  "pack_option X ev st = Return (b, t) \<Longrightarrow>
     (\<exists>c s. t = [Print c s]) \<and> (b \<longrightarrow> fst ev = Chr CHR ''h'')"
  by (auto simp: pack_option_def Let_def split: pack_option_splits)


subsection \<open>The option loop of pack\<close>

lemma pack_loop_trace:
  "seq_steps (pack_option X) evs s = Next s' \<Longrightarrow> p_trace s' = p_trace s"
  by (erule seq_steps_Next_invariant [where P = "\<lambda>t. p_trace t = p_trace s"])
     (simp_all add: pack_option_trace)

lemma pack_loop_image:
  "seq_steps (pack_option X) evs s = Next s' \<Longrightarrow> p_image s' = p_image s"
  by (erule seq_steps_Next_invariant [where P = "\<lambda>t. p_image t = p_image s"])
     (auto simp: pack_option_def Let_def split: pack_option_splits)

lemma pack_loop_values_mono:
  "seq_steps (pack_option X) evs s = Next s' \<Longrightarrow> p_values s it \<Longrightarrow> p_values s' it"
  by (erule seq_steps_Next_invariant [where P = "\<lambda>t. p_values t it"])
     (simp_all add: pack_option_values_mono)



lemma pack_loop_frame_type:
  assumes "seq_steps (pack_option X) evs s = Next s'" and "\<forall>ev\<in>set evs. fst ev \<noteq> Chr CHR ''t''"
  shows "p_type s' = p_type s"
proof (rule seq_steps_Next_invariant [OF assms(1), where P = "\<lambda>t. p_type t = p_type s"])
  fix x t t'
  assume "x \<in> set evs" and P: "p_type t = p_type s" and step: "pack_option X x t = Next t'"
  then have "fst x \<noteq> Chr CHR ''t''" using assms(2) by blast
  from pack_option_frame_type [OF step this] P show "p_type t' = p_type s" by simp
qed simp

lemma pack_loop_Return:
  assumes "seq_steps (pack_option X) evs s = Return (b, t)"
  shows "(\<exists>c m. t = [Print c m]) \<and> (b \<longrightarrow> (\<exists>ev\<in>set evs. fst ev = Chr CHR ''h''))"
proof -
  from seq_steps_Return_source [OF assms, where P = "\<lambda>_. True"]
  obtain x u where "x \<in> set evs" "pack_option X x u = Return (b, t)" by auto
  then show ?thesis using pack_option_Return [of X x u b t] by blast
qed


lemma pack_option_Return_err:
  "pack_option X ev st = Return (b, t) \<Longrightarrow> fst ev \<noteq> Chr CHR ''h'' \<Longrightarrow>
     \<not> b \<and> (\<exists>m. t = [Print Stderr m])"
  by (auto simp: pack_option_def Let_def split: pack_option_splits)

lemma pack_option_frame_path_blob:
  "pack_option X ev st = Next st' \<Longrightarrow> kind it = Blob \<Longrightarrow> fst ev \<noteq> OPT_INPUT it \<Longrightarrow>
     p_path st' it = p_path st it"
  by (auto simp: pack_option_def Let_def split: pack_option_splits)

lemma pack_loop_frame_path_blob:
  assumes "seq_steps (pack_option X) evs s = Next s'" and "kind it = Blob"
    and "\<forall>ev\<in>set evs. fst ev \<noteq> OPT_INPUT it"
  shows "p_path s' it = p_path s it"
proof (rule seq_steps_Next_invariant [OF assms(1), where P = "\<lambda>t. p_path t it = p_path s it"])
  fix x t t'
  assume "x \<in> set evs" and P: "p_path t it = p_path s it" and step: "pack_option X x t = Next t'"
  then have "fst x \<noteq> OPT_INPUT it" using assms(3) by blast
  from pack_option_frame_path_blob [OF step assms(2) this] P show "p_path t' it = p_path s it"
    by simp
qed simp

subsection \<open>Reading the items\<close>

lemmas read_splits = sum.splits option.splits item_kind.splits prod.splits if_splits


lemma read_scalar_frame:
  "read_scalar X K fs it st = Next st' \<Longrightarrow>
     p_values st' = p_values st \<and> p_path st' = p_path st \<and> p_image st' = p_image st
     \<and> p_type st' = p_type st
     \<and> (\<forall>j. j \<noteq> it \<longrightarrow> p_text st' j = p_text st j \<and> p_num st' j = p_num st j)"
  by (auto simp: read_scalar_def Let_def split: read_splits)

lemma read_scalar_trace:
  "read_scalar X K fs it st = Next st' \<Longrightarrow>
     (p_values st it \<and> p_trace st' = p_trace st)
     \<or> (\<not> p_values st it \<and> p_trace st' = p_trace st @ [Fopen it (p_path st it)])"
  by (auto simp: read_scalar_def Let_def split: read_splits)

lemma read_scalar_Return:
  "read_scalar X K fs it st = Return (b, t) \<Longrightarrow>
     \<not> b \<and> \<not> p_values st it
     \<and> (\<exists>m. t = p_trace st @ [Fopen it (p_path st it), Print Stderr m])"
  by (auto simp: read_scalar_def Let_def io_error_def format_error_def split: read_splits)

lemma read_blob_frame:
  "read_blob fs it st = Next st' \<Longrightarrow>
     p_values st' = p_values st \<and> p_path st' = p_path st \<and> p_text st' = p_text st
     \<and> p_num st' = p_num st \<and> p_type st' = p_type st
     \<and> p_trace st' = p_trace st @ [Fopen it (p_path st it)]
     \<and> (\<forall>j. j \<noteq> it \<longrightarrow> p_image st' j = p_image st j)"
  by (auto simp: read_blob_def Let_def split: read_splits)

lemma read_blob_Return:
  "read_blob fs it st = Return (b, t) \<Longrightarrow>
     \<not> b \<and> (\<exists>m. t = p_trace st @ [Fopen it (p_path st it), Print Stderr m])"
  by (auto simp: read_blob_def Let_def io_error_def split: read_splits)

lemma read_inv_refl: "read_inv st st"
  by (simp add: read_inv_def)

lemma read_scalar_inv:
  "kind it \<noteq> Blob \<Longrightarrow> read_inv st t \<Longrightarrow> read_scalar X K fs it t = Next t' \<Longrightarrow> read_inv st t'"
  by (frule read_scalar_frame, frule read_scalar_trace)
     (auto simp: read_inv_def read_event_def)

lemma read_blob_inv:
  "kind it = Blob \<Longrightarrow> read_inv st t \<Longrightarrow> read_blob fs it t = Next t' \<Longrightarrow> read_inv st t'"
  by (frule read_blob_frame) (auto simp: read_inv_def read_event_def)

lemma scalar_items_kind: "it \<in> set scalar_items \<Longrightarrow> kind it \<noteq> Blob"
  by (auto simp: scalar_items_def)

lemma pack_blob_items_kind: "it \<in> set pack_blob_items \<Longrightarrow> kind it = Blob"
  by (auto simp: pack_blob_items_def)

lemma scalar_phase_inv:
  "seq_steps (read_scalar X K fs) scalar_items st = Next st2 \<Longrightarrow> read_inv st st2"
  by (erule seq_steps_Next_invariant [where P = "read_inv st"])
     (auto intro: read_inv_refl read_scalar_inv dest: scalar_items_kind)

lemma blob_phase_inv:
  "seq_steps (read_blob fs) pack_blob_items st2 = Next st3 \<Longrightarrow> read_inv st st2 \<Longrightarrow> read_inv st st3"
  by (erule seq_steps_Next_invariant [where P = "read_inv st"])
     (auto intro: read_blob_inv dest: pack_blob_items_kind)

lemma scalar_phase_Return:
  assumes "seq_steps (read_scalar X K fs) scalar_items st = Return (b, t)"
  shows "\<not> b \<and> (\<forall>e\<in>set t. e \<in> set (p_trace st) \<or> read_event st e)"
proof -
  from seq_steps_Return_source [OF assms, where P = "read_inv st"]
  obtain x u where x: "x \<in> set scalar_items" and u: "read_inv st u"
    and r: "read_scalar X K fs x u = Return (b, t)"
    by (auto intro: read_inv_refl read_scalar_inv dest: scalar_items_kind)
  from read_scalar_Return [OF r] u show ?thesis
    by (auto simp: read_inv_def read_event_def)
qed

lemma blob_phase_Return:
  assumes "seq_steps (read_blob fs) pack_blob_items st2 = Return (b, t)" and "read_inv st st2"
  shows "\<not> b \<and> (\<forall>e\<in>set t. e \<in> set (p_trace st) \<or> read_event st e)"
proof -
  from seq_steps_Return_source [OF assms(1), where P = "read_inv st"] assms(2)
  obtain x u where x: "x \<in> set pack_blob_items" and u: "read_inv st u"
    and r: "read_blob fs x u = Return (b, t)"
    by (auto intro: read_blob_inv dest: pack_blob_items_kind)
  from read_blob_Return [OF r] u pack_blob_items_kind [OF x] show ?thesis
    by (auto simp: read_inv_def read_event_def)
qed

lemma pack_read_Next: "pack_read X K fs st = Next st3 \<Longrightarrow> read_inv st st3"
  by (auto simp: pack_read_def split: ctl.splits dest: scalar_phase_inv blob_phase_inv)

lemma pack_read_Return:
  "pack_read X K fs st = Return (b, t) \<Longrightarrow>
     \<not> b \<and> (\<forall>e\<in>set t. e \<in> set (p_trace st) \<or> read_event st e)"
  by (auto simp: pack_read_def split: ctl.splits
      dest: scalar_phase_Return scalar_phase_inv blob_phase_Return)



lemma pack_read_image_kept:
  assumes run: "pack_read X K fs st = Next st3"
    and miss: "read_file_data fs (p_path st it) = Inl e"
  shows "p_image st3 it = p_image st it"
proof -
  let ?P = "\<lambda>t. p_path t = p_path st \<and> p_image t it = p_image st it"
  from run obtain st2 where s: "seq_steps (read_scalar X K fs) scalar_items st = Next st2"
    and b: "seq_steps (read_blob fs) pack_blob_items st2 = Next st3"
    by (auto simp: pack_read_def split: ctl.splits)
  have "?P st2"
    by (rule seq_steps_Next_invariant [OF s, where P = ?P]) (auto dest: read_scalar_frame)
  moreover have "\<And>x t t'. ?P t \<Longrightarrow> read_blob fs x t = Next t' \<Longrightarrow> ?P t'"
  proof -
    fix x t t' assume P: "?P t" and step: "read_blob fs x t = Next t'"
    show "?P t'"
    proof (cases "x = it")
      case True
      with P step miss show ?thesis
        by (auto simp: read_blob_def Let_def split: read_splits)
    next
      case False
      with read_blob_frame [OF step] P show ?thesis by simp
    qed
  qed
  ultimately show ?thesis
    using seq_steps_Next_invariant [OF b, where P = ?P] by blast
qed





subsection \<open>The function after the option loop\<close>

lemma pack_start_simps [simp]:
  "p_path (pack_start X st out) = pack_path X st out"
  "p_values (pack_start X st out) = p_values st"
  "p_text (pack_start X st out) = p_text st"
  "p_num (pack_start X st out) = p_num st"
  "p_image (pack_start X st out) = p_image st"
  "p_type (pack_start X st out) = p_type st"
  "p_trace (pack_start X st out) = [Print Stdout ''Input files:'']"
  by (simp_all add: pack_start_def)

lemma pack_main_after_loop:
  "getopt_long_all pack_optstring pack_long_options argv = (evs, pos) \<Longrightarrow>
   seq_steps (pack_option X) evs pack_init = Next st \<Longrightarrow>
   pack_main X K fs argv = pack_body X K fs st pos"
  by (simp add: pack_main_def)

lemma pack_body_events:
  assumes "e \<in> set (trace (pack_body X K fs st pos))"
  shows "(\<exists>c m. e = Print c m) \<or> (\<exists>f. e = CreateFile f)
     \<or> (\<exists>j out. pos = [out] \<and> e = Fopen j (pack_path X st out j) \<and> (kind j = Blob \<or> \<not> p_values st j))"
proof (cases "p_type st = Loki \<and> p_path st I_aboot = []")
  case True
  with assms show ?thesis by (auto simp: pack_body_def loki_error_def)
next
  case False
  show ?thesis
  proof (cases "\<exists>out. pos = [out]")
    case False
    with assms \<open>\<not> (p_type st = Loki \<and> p_path st I_aboot = [])\<close> show ?thesis
      by (auto simp: pack_body_def split: list.splits)
  next
    case True
    then obtain out where pos: "pos = [out]" by blast
    let ?st1 = "pack_start X st out"
    have ev: "\<And>e. read_event ?st1 e \<Longrightarrow> (\<exists>c m. e = Print c m)
        \<or> (\<exists>j. e = Fopen j (pack_path X st out j) \<and> (kind j = Blob \<or> \<not> p_values st j))"
      by (auto simp: read_event_def)
    show ?thesis
    proof (cases "pack_read X K fs ?st1")
      case (Return r)
      obtain b t where r: "r = (b, t)" by (cases r)
      from pack_read_Return [OF Return [unfolded r]] assms False pos Return r
      have "e \<in> set (p_trace ?st1) \<or> read_event ?st1 e"
        by (auto simp: pack_body_def)
      with ev [of e] pos show ?thesis by auto
    next
      case (Next st3)
      from pack_read_Next [OF Next] have inv: "read_inv ?st1 st3" .
      from assms False pos Next
      have "e \<in> set (p_trace st3) \<or> (\<exists>f. e = CreateFile f) \<or> (\<exists>c m. e = Print c m)"
        by (auto simp: pack_body_def Let_def split: if_splits)
      with inv ev [of e] pos show ?thesis by (auto simp: read_inv_def)
    qed
  qed
qed

lemma pack_body_image:
  assumes "image (pack_body X K fs st pos) = Some bi"
  shows "\<exists>out st3. pos = [out] \<and> pack_read X K fs (pack_start X st out) = Next st3
          \<and> bi = pack_image X st3"
  using assms
  by (auto simp: pack_body_def Let_def split: if_splits list.splits ctl.splits prod.splits)


subsection \<open>Printing and scanning a hexadecimal field\<close>

lemma below_16_cases:
  "0 \<le> d \<Longrightarrow> d < 16 \<Longrightarrow> d = 0 \<or> d = 1 \<or> d = 2 \<or> d = 3 \<or> d = 4 \<or> d = 5 \<or> d = 6 \<or> d = 7
     \<or> d = 8 \<or> d = 9 \<or> d = 10 \<or> d = 11 \<or> d = 12 \<or> d = 13 \<or> d = 14 \<or> d = (15::int)"
  by arith

lemma digit_val_digit_char: "0 \<le> d \<Longrightarrow> d < 16 \<Longrightarrow> digit_val 16 (digit_char d) = Some d"
  by (drule (1) below_16_cases) (auto simp: digit_val_def digit_char_def)

lemma is_digit_digit_char: "0 \<le> d \<Longrightarrow> d < 16 \<Longrightarrow> is_digit 16 (digit_char d)"
  by (simp add: is_digit_def digit_val_digit_char)

lemma digits_val_append:
  "list_all (is_digit b) xs \<Longrightarrow> digits_val b acc (xs @ ys) = digits_val b (digits_val b acc xs) ys"
  by (induction xs arbitrary: acc) (auto simp: is_digit_def)

text \<open>The digits printed for a number in base 16 are digits, read back as the number,
  and are at most \<open>k\<close> for a number below \<open>16^k\<close>.\<close>

lemma show_uint_16:
  "0 \<le> n \<Longrightarrow> list_all (is_digit 16) (show_uint 16 n) \<and> digits_val 16 0 (show_uint 16 n) = n"
proof (induction "16 :: int" n rule: show_uint.induct)
  case (1 n)
  show ?case
  proof (cases "n < 16")
    case True
    with 1(2) show ?thesis
      by (simp add: show_uint.simps [of 16 n] is_digit_digit_char digit_val_digit_char)
  next
    case False
    then have "0 \<le> n div 16" by simp
    with 1(1) False have ih: "list_all (is_digit 16) (show_uint 16 (n div 16))"
      "digits_val 16 0 (show_uint 16 (n div 16)) = n div 16" by simp_all
    have m: "0 \<le> n mod 16" "n mod 16 < 16" by simp_all
    from False ih m show ?thesis
      by (simp add: show_uint.simps [of 16 n] digits_val_append is_digit_digit_char
          digit_val_digit_char)
  qed
qed

lemma length_show_uint_16: "0 \<le> n \<Longrightarrow> n < 16 ^ k \<Longrightarrow> 0 < k \<Longrightarrow> length (show_uint 16 n) \<le> k"
proof (induction k arbitrary: n)
  case 0
  then show ?case by simp
next
  case (Suc k)
  show ?case
  proof (cases "n < 16")
    case True
    then show ?thesis by (simp add: show_uint.simps [of 16 n])
  next
    case False
    then have k: "0 < k" using Suc.prems by (cases k) auto
    have nn: "0 \<le> n div 16" using Suc.prems by simp
    have "n div 16 < 16 ^ k" using Suc.prems by simp
    from Suc.IH [OF nn this k] False show ?thesis by (simp add: show_uint.simps [of 16 n])
  qed
qed

lemma digits_val_zeros: "digits_val 16 0 (replicate k CHR ''0'' @ ds) = digits_val 16 0 ds"
  by (induction k) (simp_all add: digit_val_def)

lemma fmt_08x_length: "length (fmt_08x w) = 8"
proof -
  have "uint w < 2 ^ LENGTH(32)" by (rule unsigned_less)
  then have "uint w < 16 ^ 8" by simp
  then have "length (show_uint 16 (uint w)) \<le> 8" by (intro length_show_uint_16) simp_all
  then show ?thesis by (simp add: fmt_08x_def Let_def)
qed

lemma zeros_digits: "list_all (is_digit 16) (replicate k CHR ''0'')"
  by (induction k) (simp_all add: is_digit_def digit_val_def)

lemma fmt_08x_digits: "list_all (is_digit 16) (fmt_08x w)"
  by (simp add: fmt_08x_def Let_def show_uint_16 zeros_digits)

lemma fmt_08x_value: "digits_val 16 0 (fmt_08x w) = uint w"
  by (simp add: fmt_08x_def Let_def digits_val_zeros show_uint_16)

lemma is_digit_16_plain:
  "is_digit 16 c \<Longrightarrow> \<not> isspace c \<and> \<not> is_sign c \<and> c \<noteq> CHR ''x'' \<and> c \<noteq> CHR ''X''"
  by (auto simp: is_digit_def digit_val_def isspace_def is_sign_def Let_def split: if_splits)

lemma has_hex_prefix_take:
  "2 \<le> n \<Longrightarrow> has_hex_prefix (take n s) = has_hex_prefix s"
  by (cases s; cases "tl s"; cases n; cases "n - 1") (auto simp: has_hex_prefix_def)

lemma digit_val_zero: "digit_val 16 CHR ''0'' = Some 0"
  by (simp add: digit_val_def)

text \<open>What \<^verbatim>\<open>%08x\<close> reads, in terms of the text: the field is the first 8 characters
  after the white space, the body is the field without its sign; a number is read
  exactly when the body starts with a hex digit.\<close>

lemma fscanf_08x_scan:
  "fscanf_08x d =
     (let field = take 8 (dropWhile isspace d);
          body = (case field of c # cs \<Rightarrow> if is_sign c then cs else field | [] \<Rightarrow> field);
          digits = takeWhile (is_digit 16) (if has_hex_prefix body then drop 2 body else body);
          n = (of_int (digits_val 16 0 digits) :: u32)
      in if body \<noteq> [] \<and> is_digit 16 (hd body)
         then (1, if hd field = CHR ''-'' then - n else n)
         else (if field = [] then EOF else 0, 0))"
proof -
  define s1 where "s1 = dropWhile isspace d"
  define field where "field = take 8 s1"
  define body where "body = (case field of c # cs \<Rightarrow> if is_sign c then cs else field | [] \<Rightarrow> field)"
  have neg: "(case field of c # _ \<Rightarrow> c = CHR ''-'' | [] \<Rightarrow> False) \<longleftrightarrow> field \<noteq> [] \<and> hd field = CHR ''-''"
    by (cases field) simp_all
  have empty: "field = [] \<longleftrightarrow> s1 = []" by (cases s1) (simp_all add: field_def)
  have scan: "fscanf_uint 16 (Some 8) d =
      (if s1 = [] then (EOF, False, 0)
       else let ds = (if has_hex_prefix body then CHR ''0'' # takeWhile (is_digit 16) (drop 2 body)
                      else takeWhile (is_digit 16) body)
            in if ds = [] then (0, False, 0)
               else (1, field \<noteq> [] \<and> hd field = CHR ''-'', digits_val 16 0 ds))"
    by (simp add: fscanf_uint_def Let_def s1_def [symmetric] field_def [symmetric]
        body_def [symmetric] neg)
  show ?thesis
  proof (cases body)
    case Nil
    then show ?thesis
      unfolding fscanf_08x_def scan Let_def s1_def [symmetric] field_def [symmetric]
        body_def [symmetric]
      by (simp add: has_hex_prefix_def empty)
  next
    case (Cons c cs)
    then have fne: "field \<noteq> []" "s1 \<noteq> []" using empty by (auto simp: body_def)
    show ?thesis
    proof (cases "is_digit 16 c")
      case True
      show ?thesis
      proof (cases "has_hex_prefix body")
        case pre: True
        then show ?thesis
          unfolding fscanf_08x_def scan Let_def s1_def [symmetric] field_def [symmetric]
            body_def [symmetric]
          using Cons True fne by (simp add: digit_val_zero)
      next
        case False
        then show ?thesis
          unfolding fscanf_08x_def scan Let_def s1_def [symmetric] field_def [symmetric]
            body_def [symmetric]
          using Cons True fne by simp
      qed
    next
      case False
      then have "c \<noteq> CHR ''0''" by (auto simp: is_digit_def digit_val_zero)
      then have "\<not> has_hex_prefix body" using Cons by (simp add: has_hex_prefix_def split: list.splits)
      then show ?thesis
        unfolding fscanf_08x_def scan Let_def s1_def [symmetric] field_def [symmetric]
          body_def [symmetric]
        using Cons False fne by simp
    qed
  qed
qed

lemma fscanf_08x_core:
  assumes hd: "\<not> isspace c" "\<not> is_sign c"
    and pre: "\<not> has_hex_prefix (take 8 (c # cs))"
    and ds: "takeWhile (is_digit 16) (take 8 (c # cs)) = ds" "ds \<noteq> []"
  shows "fscanf_08x (c # cs) = (1, of_int (digits_val 16 0 ds))"
proof -
  have field: "take 8 (dropWhile isspace (c # cs)) = c # take 7 cs" using hd(1) by simp
  have t: "take 8 (c # cs) = c # take 7 cs" by simp
  from ds have dig: "is_digit 16 c" by (auto simp: t split: if_splits)
  have minus: "c \<noteq> CHR ''-''" using hd(2) by (auto simp: is_sign_def)
  show ?thesis
    unfolding fscanf_08x_scan field Let_def
    using hd(2) pre ds dig minus by (simp add: t)
qed

lemma fscanf_08x_digits:
  assumes ne: "ds \<noteq> []" and len: "length ds \<le> 8" and dig: "list_all (is_digit 16) ds"
    and nopre: "\<not> has_hex_prefix (ds @ rest)"
    and stop: "length ds = 8 \<or> rest = [] \<or> \<not> is_digit 16 (hd rest)"
  shows "fscanf_08x (ds @ rest) = (1, of_int (digits_val 16 0 ds))"
proof -
  from ne obtain c cs where ds: "ds = c # cs" by (cases ds) auto
  with dig have c: "is_digit 16 c" by simp
  note plain = is_digit_16_plain [OF c]
  have pre: "\<not> has_hex_prefix (take 8 (ds @ rest))"
    using nopre has_hex_prefix_take [of 8 "ds @ rest"] by simp
  have tw: "takeWhile (is_digit 16) (take 8 (ds @ rest)) = ds"
  proof (cases "length ds = 8")
    case True
    then show ?thesis using dig by (simp add: list_all_iff)
  next
    case False
    with len have "take 8 (ds @ rest) = ds @ take (8 - length ds) rest" by simp
    moreover have "takeWhile (is_digit 16) (take (8 - length ds) rest) = []"
      using stop False by (cases rest) (auto simp: take_Cons')
    ultimately show ?thesis using dig by (simp add: takeWhile_append2 list_all_iff)
  qed
  have "fscanf_08x (c # (cs @ rest)) = (1, of_int (digits_val 16 0 ds))"
  proof (rule fscanf_08x_core)
    show "\<not> isspace c" "\<not> is_sign c" using plain by simp_all
    show "\<not> has_hex_prefix (take 8 (c # cs @ rest))" using pre by (simp only: ds append_Cons simp_thms)
    show "takeWhile (is_digit 16) (take 8 (c # cs @ rest)) = ds"
      using tw by (simp only: ds append_Cons simp_thms)
    show "ds \<noteq> []" by (rule ne)
  qed
  then show ?thesis by (simp add: ds)
qed

lemma fscanf_08x_fmt_08x: "fscanf_08x (fmt_08x w @ rest) = (1, w)"
proof -
  have ne: "fmt_08x w \<noteq> []" using fmt_08x_length [of w] by auto
  obtain c0 c1 cs where f: "fmt_08x w = c0 # c1 # cs"
    using fmt_08x_length [of w] by (cases "fmt_08x w"; cases "tl (fmt_08x w)") auto
  with fmt_08x_digits [of w] have "is_digit 16 c1" by simp
  from is_digit_16_plain [OF this] f have nopre: "\<not> has_hex_prefix (fmt_08x w @ rest)"
    by (simp add: has_hex_prefix_def)
  from fscanf_08x_digits [OF ne _ fmt_08x_digits nopre] fmt_08x_length [of w]
  show ?thesis by (simp add: fmt_08x_value)
qed

lemma hex_digits_alone:
  assumes "ds \<noteq> []" and "list_all (is_digit 16) ds" and "rest = [] \<or> rest = ''\<newline>''"
  shows "\<not> has_hex_prefix (ds @ rest) \<and> (rest = [] \<or> \<not> is_digit 16 (hd rest))"
proof -
  have nl: "\<not> is_digit 16 CHR 0x0A" by (simp add: is_digit_def digit_val_def)
  have "\<not> has_hex_prefix (ds @ rest)"
  proof (cases ds)
    case Nil
    with assms show ?thesis by simp
  next
    case (Cons c cs)
    show ?thesis
    proof (cases cs)
      case Nil
      with Cons assms(3) show ?thesis by (auto simp: has_hex_prefix_def)
    next
      case (Cons c1 cs1)
      with \<open>ds = c # cs\<close> assms(2) have "is_digit 16 c1" by simp
      from is_digit_16_plain [OF this] Cons \<open>ds = c # cs\<close> show ?thesis
        by (simp add: has_hex_prefix_def)
    qed
  qed
  with assms(3) nl show ?thesis by auto
qed

text \<open>A field of at most 8 characters is below \<open>2^32\<close>: storing what \<^verbatim>\<open>%08x\<close> read
  through \<^verbatim>\<open>strtoul\<close> never meets the bound of \<^verbatim>\<open>unsigned long\<close>.\<close>

lemma digit_val_range: "digit_val 16 c = Some v \<Longrightarrow> 0 \<le> v \<and> v < 16"
  by (auto simp: digit_val_def Let_def split: if_splits)

lemma digits_val_bound: "0 \<le> acc \<Longrightarrow> 0 \<le> digits_val 16 acc ds \<and> digits_val 16 acc ds < (acc + 1) * 16 ^ length ds"
proof (induction ds arbitrary: acc)
  case Nil
  then show ?case by simp
next
  case (Cons c cs)
  show ?case
  proof (cases "digit_val 16 c")
    case None
    have one: "(1 :: int) \<le> 16 ^ length (c # cs)" by (rule one_le_power) simp
    have "acc < (acc + 1) * 1" by simp
    also have "\<dots> \<le> (acc + 1) * 16 ^ length (c # cs)"
      using Cons.prems one by (intro mult_left_mono) simp_all
    finally have "acc < (acc + 1) * 16 ^ length (c # cs)" .
    with None Cons.prems show ?thesis by simp
  next
    case (Some v)
    from digit_val_range [OF Some] Cons.prems have a: "0 \<le> acc * 16 + v" by simp
    from Cons.IH [OF a] have lo: "0 \<le> digits_val 16 (acc * 16 + v) cs"
      and up: "digits_val 16 (acc * 16 + v) cs < (acc * 16 + v + 1) * 16 ^ length cs" by simp_all
    have "acc * 16 + v + 1 \<le> (acc + 1) * 16" using digit_val_range [OF Some] by simp
    then have "(acc * 16 + v + 1) * 16 ^ length cs \<le> ((acc + 1) * 16) * 16 ^ length cs"
      by (intro mult_right_mono) simp_all
    from less_le_trans [OF up this]
    have "digits_val 16 (acc * 16 + v) cs < (acc + 1) * 16 ^ length (c # cs)"
      by (simp add: algebra_simps)
    with lo Some show ?thesis by simp
  qed
qed

lemma fscanf_08x_store:
  assumes "2 ^ 32 - 1 \<le> ulong_max"
  shows "fscanf_08x d =
     (case fscanf_uint 16 (Some 8) d of (count, neg, m) \<Rightarrow> (count, store_uint ulong_max neg m))"
proof -
  have small: "digits_val 16 0 ds \<le> ulong_max" if "length ds \<le> 8" for ds
  proof -
    from digits_val_bound [of 0 ds] have "digits_val 16 0 ds < 16 ^ length ds" by simp
    also have "(16 :: int) ^ length ds \<le> 16 ^ 8" using that by (intro power_increasing) simp_all
    finally show ?thesis using assms by simp
  qed
  obtain count neg m where r: "fscanf_uint 16 (Some 8) d = (count, neg, m)" by (metis surj_pair)
  have "m \<le> ulong_max"
  proof -
    let ?t2 = "case take 8 (dropWhile isspace d) of c # cs \<Rightarrow> if is_sign c then cs else take 8 (dropWhile isspace d)
               | [] \<Rightarrow> take 8 (dropWhile isspace d)"
    have "length (take 8 (dropWhile isspace d)) \<le> 8" by simp
    then have l2: "length ?t2 \<le> 8"
      by (cases "take 8 (dropWhile isspace d)") (simp_all del: length_take take_eq_Nil)
    have l0: "(0 :: int) \<le> ulong_max" using assms by simp
    have a: "digits_val 16 0 (CHR ''0'' # takeWhile (is_digit 16) (drop 2 ?t2)) \<le> ulong_max"
    proof (rule small)
      have "length (takeWhile (is_digit 16) (drop 2 ?t2)) \<le> length (drop 2 ?t2)"
        by (rule length_takeWhile_le)
      with l2 show "length (CHR ''0'' # takeWhile (is_digit 16) (drop 2 ?t2)) \<le> 8" by simp
    qed
    have b: "digits_val 16 0 (takeWhile (is_digit 16) ?t2) \<le> ulong_max"
    proof (rule small)
      have "length (takeWhile (is_digit 16) ?t2) \<le> length ?t2" by (rule length_takeWhile_le)
      with l2 show "length (takeWhile (is_digit 16) ?t2) \<le> 8" by simp
    qed
    from r a b l0 show ?thesis
      by (auto simp: fscanf_uint_def Let_def split: if_splits)
  qed
  with r show ?thesis by (simp add: fscanf_08x_def store_uint_def)
qed

subsection \<open>The help option\<close>

text \<open>No command line reaches the \<^verbatim>\<open>case 'h'\<close> of either option loop, the only place
  where a subcommand returns true without doing its work.\<close>

lemma unpack_option_Return:
  "unpack_option ev st = Return (b, t) \<Longrightarrow> b \<Longrightarrow> fst ev = Chr CHR ''h''"
  by (auto simp: unpack_option_def split: prod.splits if_splits optcode.splits)

lemma help_branch_unreachable:
  "seq_steps unpack_option (fst (getopt_long_all unpack_optstring unpack_long_options argv))
      unpack_init \<noteq> Return (True, t)"
  "seq_steps (pack_option X) (fst (getopt_long_all pack_optstring pack_long_options argv))
      pack_init \<noteq> Return (True, t)"
proof -
  show "seq_steps unpack_option (fst (getopt_long_all unpack_optstring unpack_long_options argv))
      unpack_init \<noteq> Return (True, t)"
  proof
    assume r: "seq_steps unpack_option
        (fst (getopt_long_all unpack_optstring unpack_long_options argv)) unpack_init
          = Return (True, t)"
    from seq_steps_Return_source [OF r, where P = "\<lambda>_. True"]
    obtain x u where x: "x \<in> set (fst (getopt_long_all unpack_optstring unpack_long_options argv))"
      and "unpack_option x u = Return (True, t)" by auto
    then have "fst x = Chr CHR ''h''" by (auto dest: unpack_option_Return)
    with unpack_getopt_never_h [OF x] show False by simp
  qed
  show "seq_steps (pack_option X) (fst (getopt_long_all pack_optstring pack_long_options argv))
      pack_init \<noteq> Return (True, t)"
  proof
    assume r: "seq_steps (pack_option X)
        (fst (getopt_long_all pack_optstring pack_long_options argv)) pack_init = Return (True, t)"
    from pack_loop_Return [OF r] pack_getopt_never_h [of _ argv] show False by auto
  qed
qed

text \<open>
  C8 (the help option). The specification has \<^verbatim>\<open>-h\<close> or \<^verbatim>\<open>--help\<close>, given to either
  subcommand, print that subcommand's usage text on standard output and exit with
  success. Both functions have a \<^verbatim>\<open>case 'h'\<close> that does so, but neither option string
  (\<^verbatim>\<open>"o:p:n"\<close>, \<^verbatim>\<open>"i:p:nt:"\<close>) holds \<^verbatim>\<open>h\<close> and neither table holds \<^verbatim>\<open>help\<close>, so
  \<^verbatim>\<open>getopt_long\<close> returns \<^verbatim>\<open>'?'\<close>: the run takes the \<^verbatim>\<open>default\<close> branch, prints the
  usage text on standard error and exits with failure, in any environment.
\<close>

theorem help_option_exits_with_failure:
  "(let r = main X K fs [''bootimgtool'', ''unpack'', ''-h'']
    in fst r = EXIT_FAILURE \<and> trace (snd r) = [Print Stderr UnpackUsage])
   \<and> (let r = main X K fs [''bootimgtool'', ''unpack'', ''--help'']
    in fst r = EXIT_FAILURE \<and> trace (snd r) = [Print Stderr UnpackUsage])
   \<and> (let r = main X K fs [''bootimgtool'', ''pack'', ''-h'']
    in fst r = EXIT_FAILURE \<and> trace (snd r) = [Print Stderr PackUsage])
   \<and> (let r = main X K fs [''bootimgtool'', ''pack'', ''--help'']
    in fst r = EXIT_FAILURE \<and> trace (snd r) = [Print Stderr PackUsage])"
  by code_simp

subsection \<open>Resolution of the items in pack\<close>







text \<open>
  C7 (Loki precondition). A pack command line whose last \<^verbatim>\<open>-t\<close>/\<^verbatim>\<open>--type\<close> option is
  \<^verbatim>\<open>loki\<close> and that has no \<^verbatim>\<open>--input-aboot\<close> option returns false, hands no image to the
  codec, and does nothing but print to standard error: no file is opened and
  \<^verbatim>\<open>createFile\<close> is not called. (The message is the aboot error, or that of an earlier
  invalid option.)
\<close>

theorem loki_requires_aboot:
  assumes opts: "getopt_long_all pack_optstring pack_long_options argv
                   = (pre @ (Chr CHR ''t'', ''loki'') # post, pos)"
    and last_t: "\<forall>ev\<in>set post. fst ev \<noteq> Chr CHR ''t''"
    and no_aboot: "\<forall>ev\<in>set (pre @ post). fst ev \<noteq> OPT_INPUT I_aboot"
  shows "\<not> ret (pack_main X K fs argv) \<and> image (pack_main X K fs argv) = None
     \<and> (\<forall>e\<in>set (trace (pack_main X K fs argv)). \<exists>m. e = Print Stderr m)"
proof -
  let ?evs = "pre @ (Chr CHR ''t'', ''loki'') # post"
  have noh: "\<forall>ev\<in>set ?evs. fst ev \<noteq> Chr CHR ''h''"
    using pack_getopt_never_h [of _ argv] opts by simp
  show ?thesis
  proof (cases "seq_steps (pack_option X) ?evs pack_init")
    case (Return r)
    obtain b t where r: "r = (b, t)" by (cases r)
    from seq_steps_Return_source [OF Return [unfolded r], where P = "\<lambda>_. True"]
    obtain x u where "x \<in> set ?evs" "pack_option X x u = Return (b, t)" by auto
    with noh pack_option_Return_err [of X x u b t] have "\<not> b \<and> (\<exists>m. t = [Print Stderr m])"
      by blast
    with Return r opts show ?thesis by (auto simp: pack_main_def)
  next
    case (Next st)
    then obtain s1 s2 where step: "pack_option X (Chr CHR ''t'', ''loki'') s1 = Next s2"
      and rest: "seq_steps (pack_option X) post s2 = Next st"
      by (blast dest: seq_steps_split)
    from pack_option_type [OF step] pack_loop_frame_type [OF rest last_t]
    have ty: "p_type st = Loki" by (simp add: parse_type_def)
    have "\<forall>ev\<in>set ?evs. fst ev \<noteq> OPT_INPUT I_aboot" using no_aboot by auto
    from pack_loop_frame_path_blob [OF Next _ this]
    have "p_path st I_aboot = []" by (simp add: pack_init_def)
    with ty Next opts show ?thesis
      by (simp add: pack_main_def pack_body_def loki_error_def)
  qed
qed

theorem loki_requires_aboot_witness:
  "getopt_long_all pack_optstring pack_long_options [''pack'', ''out.img'', ''-t'', ''loki'']
     = ([] @ (Chr CHR ''t'', ''loki'') # [], [''out.img''])
   \<and> \<not> ret (pack_main sample_X sample_K sample_fs [''pack'', ''out.img'', ''-t'', ''loki''])
   \<and> image (pack_main sample_X sample_K sample_fs [''pack'', ''out.img'', ''-t'', ''loki'']) = None
   \<and> trace (pack_main sample_X sample_K sample_fs [''pack'', ''out.img'', ''-t'', ''loki''])
       = [loki_error]"
proof -
  have g: "getopt_long_all pack_optstring pack_long_options [''pack'', ''out.img'', ''-t'', ''loki'']
     = ([] @ (Chr CHR ''t'', ''loki'') # [], [''out.img''])"
    by code_simp
  have t: "trace (pack_main sample_X sample_K sample_fs [''pack'', ''out.img'', ''-t'', ''loki''])
       = [loki_error]"
    by code_simp
  from loki_requires_aboot [OF g, of sample_X sample_K sample_fs] g t show ?thesis by simp
qed

text \<open>
  C10 (aboot has no default path). For a pack command line without \<^verbatim>\<open>--input-aboot\<close>
  whose option loop completes: the path of aboot stays empty while every other blob
  without a path gets the default path; the only open made for aboot is of the empty
  path, which fails with \<^verbatim>\<open>ENOENT\<close> in every file system; the aboot blob handed to the
  codec is empty; and with the type Loki the run fails with the aboot error alone.
\<close>

theorem aboot_has_no_default_path:
  assumes opts: "getopt_long_all pack_optstring pack_long_options argv = (evs, pos)"
    and loop: "seq_steps (pack_option X) evs pack_init = Next st"
    and no_aboot: "\<forall>ev\<in>set evs. fst ev \<noteq> OPT_INPUT I_aboot"
  shows "pack_path X st out I_aboot = []
     \<and> (\<forall>it. kind it = Blob \<and> it \<noteq> I_aboot \<and> p_path st it = [] \<longrightarrow>
           pack_path X st out it = default_path X (pack_dir st) (pack_prefix X st out) it)
     \<and> (\<forall>p. Fopen I_aboot p \<in> set (trace (pack_main X K fs argv)) \<longrightarrow> p = [])
     \<and> fopen_rb fs [] = Inl ENOENT
     \<and> (\<forall>bi. image (pack_main X K fs argv) = Some bi \<longrightarrow> abootImage bi = [])
     \<and> (p_type st = Loki \<longrightarrow>
           \<not> ret (pack_main X K fs argv) \<and> trace (pack_main X K fs argv) = [loki_error])"
proof -
  have main: "pack_main X K fs argv = pack_body X K fs st pos"
    using opts loop by (simp add: pack_main_def)
  from pack_loop_frame_path_blob [OF loop _ no_aboot]
  have empty: "p_path st I_aboot = []" by (simp add: pack_init_def)
  then have pp: "\<And>out. pack_path X st out I_aboot = []" by (simp add: pack_path_def)
  have "\<forall>p. Fopen I_aboot p \<in> set (trace (pack_body X K fs st pos)) \<longrightarrow> p = []"
  proof (intro allI impI)
    fix p assume "Fopen I_aboot p \<in> set (trace (pack_body X K fs st pos))"
    from pack_body_events [OF this] pp show "p = []" by auto
  qed
  moreover have "\<forall>bi. image (pack_body X K fs st pos) = Some bi \<longrightarrow> abootImage bi = []"
  proof (intro allI impI)
    fix bi assume "image (pack_body X K fs st pos) = Some bi"
    from pack_body_image [OF this] obtain out st3
      where run: "pack_read X K fs (pack_start X st out) = Next st3" and bi: "bi = pack_image X st3"
      by blast
    have "read_file_data fs (p_path (pack_start X st out) I_aboot) = Inl ENOENT"
      by (simp add: pp read_file_data_def fopen_rb_def)
    from pack_read_image_kept [OF run this] pack_loop_image [OF loop]
    have "p_image st3 I_aboot = []" by (simp add: pack_init_def)
    then show "abootImage bi = []" by (simp add: bi pack_image_def setAddresses_def)
  qed
  ultimately show ?thesis
    using pp empty main by (auto simp: pack_path_def fopen_rb_def pack_body_def)
qed

theorem aboot_has_no_default_path_witness:
  "pack_path sample_X pack_init ''out.img'' I_aboot = []
   \<and> pack_path sample_X pack_init ''out.img'' I_dt = ''./out.img-dt''
   \<and> Fopen I_aboot ''./out.img-aboot''
       \<notin> set (trace (pack_main sample_X sample_K (sample_fs(''./out.img-aboot'' := Content ''ABOOT''))
                        [''pack'', ''out.img'']))
   \<and> map_option abootImage
       (image (pack_main sample_X sample_K (sample_fs(''./out.img-aboot'' := Content ''ABOOT''))
                 [''pack'', ''out.img''])) = Some []"
proof -
  let ?fs = "sample_fs(''./out.img-aboot'' := Content ''ABOOT'')"
  have g: "getopt_long_all pack_optstring pack_long_options [''pack'', ''out.img'']
      = ([], [''out.img''])"
    by code_simp
  have l: "seq_steps (pack_option sample_X) [] pack_init = Next pack_init" by simp
  have r: "case image (pack_main sample_X sample_K ?fs [''pack'', ''out.img'']) of
      Some _ \<Rightarrow> True | None \<Rightarrow> False"
    by code_simp
  have d: "default_path sample_X (pack_dir pack_init) (pack_prefix sample_X pack_init ''out.img'') I_dt
      = ''./out.img-dt''"
    by code_simp
  from aboot_has_no_default_path [OF g l, of "''out.img''" sample_K ?fs] r d
  show ?thesis by (auto simp: pack_init_def split: option.splits)
qed

subsection \<open>From unpack to pack\<close>







subsection \<open>Scalar files and value literals\<close>

text \<open>
  C2, as stated, fails: with a base file that holds \<^verbatim>\<open>1234\<close> pack succeeds, prints no
  format error, and uses \<open>0x1234\<close> as the base (the kernel address handed to the codec
  is \<open>0x1234 + DefaultKernelOffset\<close>). The 8 of \<^verbatim>\<open>%08x\<close> is for \<^verbatim>\<open>fscanf\<close> a maximum
  field width.
\<close>

theorem short_hex_line_accepted:
  "ret (pack_main sample_X sample_K (sample_fs(''./out.img-base'' := Content ''1234''))
          [''pack'', ''out.img''])
   \<and> format_error ''./out.img-base'' ''%08x''
        \<notin> set (trace (pack_main sample_X sample_K
                          (sample_fs(''./out.img-base'' := Content ''1234''))
                          [''pack'', ''out.img'']))
   \<and> map_option kernelAddress
        (image (pack_main sample_X sample_K (sample_fs(''./out.img-base'' := Content ''1234''))
                  [''pack'', ''out.img'']))
        = Some (0x1234 + DefaultKernelOffset sample_K)"
  by code_simp

text \<open>
  C2 as amended (hex parsing of a scalar file). A hex32 item without a value whose file
  can be read is scanned with \<^verbatim>\<open>%08x\<close>, where 8 is the largest width of the field and
  not a number of digits required. The field is the first 8 characters (or fewer, if
  the file ends) after leading white space; the body is the field without its sign, if
  it starts with one.
  \<^item> If the body starts with a hex digit, the item is accepted: its value is that of
    the hex digits at the start of the body, or of those after an \<^verbatim>\<open>0x\<close> or \<^verbatim>\<open>0X\<close> at
    its start (0 if there are none), negated modulo \<open>2^32\<close> if the field starts with a
    minus sign.
  \<^item> Otherwise (the file is empty or all white space, the field is only a sign, or the
    body starts with a character that is no hex digit) pack returns false with the
    format error \<^verbatim>\<open>expected '%08x' format\<close>.
  \<^item> So a file that holds one to eight hex digits and nothing else, or these and a
    newline, is accepted with the value of the digits, \<^verbatim>\<open>1234\<close> as \<open>0x1234\<close>; and so is
    the line of eight digits that unpack writes for a number, with that number.
\<close>

theorem hex_item_scan:
  assumes hex: "kind it = ScalarHex32" and nv: "\<not> p_values st it"
    and ne: "p_path st it \<noteq> []" and cont: "fs (p_path st it) = Content d"
  shows
    "read_scalar X K fs it st =
       (let field = take 8 (dropWhile isspace d);
            body = (case field of c # cs \<Rightarrow> if is_sign c then cs else field | [] \<Rightarrow> field);
            digits = takeWhile (is_digit 16) (if has_hex_prefix body then drop 2 body else body);
            n = (of_int (digits_val 16 0 digits) :: u32)
        in if body \<noteq> [] \<and> is_digit 16 (hd body)
           then Next (st\<lparr>p_trace := p_trace st @ [Fopen it (p_path st it)],
                        p_num := (p_num st)(it := if hd field = CHR ''-'' then - n else n)\<rparr>)
           else Return (False, p_trace st @ [Fopen it (p_path st it),
                                             format_error (p_path st it) ''%08x'']))
     \<and> (ds \<noteq> [] \<and> length ds \<le> 8 \<and> list_all (is_digit 16) ds \<and> (d = ds \<or> d = ds @ ''\<newline>'') \<longrightarrow>
          read_scalar X K fs it st
            = Next (st\<lparr>p_trace := p_trace st @ [Fopen it (p_path st it)],
                      p_num := (p_num st)(it := of_int (digits_val 16 0 ds))\<rparr>))
     \<and> (d = fmt_08x w @ ''\<newline>'' \<longrightarrow>
          read_scalar X K fs it st
            = Next (st\<lparr>p_trace := p_trace st @ [Fopen it (p_path st it)],
                      p_num := (p_num st)(it := w)\<rparr>))"
proof -
  have rd: "read_scalar X K fs it st =
      (case fscanf_08x d of (count, v) \<Rightarrow>
         if count \<noteq> 1
         then Return (False, p_trace st @ [Fopen it (p_path st it),
                                           format_error (p_path st it) ''%08x''])
         else Next (st\<lparr>p_trace := p_trace st @ [Fopen it (p_path st it)],
                      p_num := (p_num st)(it := v)\<rparr>))"
    using hex nv ne cont by (simp add: read_scalar_def fopen_rb_def Let_def split: prod.splits)
  have part1: "read_scalar X K fs it st =
       (let field = take 8 (dropWhile isspace d);
            body = (case field of c # cs \<Rightarrow> if is_sign c then cs else field | [] \<Rightarrow> field);
            digits = takeWhile (is_digit 16) (if has_hex_prefix body then drop 2 body else body);
            n = (of_int (digits_val 16 0 digits) :: u32)
        in if body \<noteq> [] \<and> is_digit 16 (hd body)
           then Next (st\<lparr>p_trace := p_trace st @ [Fopen it (p_path st it)],
                        p_num := (p_num st)(it := if hd field = CHR ''-'' then - n else n)\<rparr>)
           else Return (False, p_trace st @ [Fopen it (p_path st it),
                                             format_error (p_path st it) ''%08x'']))"
    unfolding rd fscanf_08x_scan Let_def by (simp add: EOF_def)
  have part2: "read_scalar X K fs it st
            = Next (st\<lparr>p_trace := p_trace st @ [Fopen it (p_path st it)],
                      p_num := (p_num st)(it := of_int (digits_val 16 0 ds))\<rparr>)"
    if h: "ds \<noteq> [] \<and> length ds \<le> 8 \<and> list_all (is_digit 16) ds \<and> (d = ds \<or> d = ds @ ''\<newline>'')"
  proof -
    from h obtain rest where dd: "d = ds @ rest" and r: "rest = [] \<or> rest = ''\<newline>''" by auto
    from h have a: "ds \<noteq> []" "length ds \<le> 8" "list_all (is_digit 16) ds" by simp_all
    from hex_digits_alone [OF a(1) a(3) r]
    have np: "\<not> has_hex_prefix (ds @ rest)" and stop: "length ds = 8 \<or> rest = [] \<or> \<not> is_digit 16 (hd rest)"
      by simp_all
    have "fscanf_08x d = (1, of_int (digits_val 16 0 ds))"
      unfolding dd by (rule fscanf_08x_digits [OF a np stop])
    then show ?thesis unfolding rd by simp
  qed
  have part3: "read_scalar X K fs it st
            = Next (st\<lparr>p_trace := p_trace st @ [Fopen it (p_path st it)],
                      p_num := (p_num st)(it := w)\<rparr>)"
    if h: "d = fmt_08x w @ ''\<newline>''"
    unfolding rd h fscanf_08x_fmt_08x by simp
  from part1 part2 part3 show ?thesis by blast
qed

theorem hex_item_scan_witness:
  "(case read_scalar sample_X sample_K (sample_fs(''./out.img-base'' := Content ''1234'')) I_base
           (pack_start sample_X pack_init ''out.img'') of
      Next t \<Rightarrow> p_num t I_base = 0x1234 | Return r \<Rightarrow> False)
   \<and> (case read_scalar sample_X sample_K (sample_fs(''./out.img-base'' := Content ''00001234\<newline>'')) I_base
           (pack_start sample_X pack_init ''out.img'') of
      Next t \<Rightarrow> p_num t I_base = 0x1234 | Return r \<Rightarrow> False)
   \<and> (case read_scalar sample_X sample_K (sample_fs(''./out.img-base'' := Content '' -1'')) I_base
           (pack_start sample_X pack_init ''out.img'') of
      Next t \<Rightarrow> p_num t I_base = - 1 | Return r \<Rightarrow> False)
   \<and> (case read_scalar sample_X sample_K (sample_fs(''./out.img-base'' := Content ''0x1234'')) I_base
           (pack_start sample_X pack_init ''out.img'') of
      Next t \<Rightarrow> p_num t I_base = 0x1234 | Return r \<Rightarrow> False)
   \<and> (case read_scalar sample_X sample_K (sample_fs(''./out.img-base'' := Content ''zzzz'')) I_base
           (pack_start sample_X pack_init ''out.img'') of
      Next t \<Rightarrow> False
    | Return r \<Rightarrow> r = (False, [Print Stdout ''Input files:'', Fopen I_base ''./out.img-base'',
                                 format_error ''./out.img-base'' ''%08x'']))"
proof -
  let ?st = "pack_start sample_X pack_init ''out.img''"
  let ?rd = "\<lambda>d. read_scalar sample_X sample_K (sample_fs(''./out.img-base'' := Content d)) I_base ?st"
  have k: "kind I_base = ScalarHex32" by simp
  have nv: "\<not> p_values ?st I_base" by (simp add: pack_init_def)
  have p: "p_path ?st I_base = ''./out.img-base''" by code_simp
  then have ne: "p_path ?st I_base \<noteq> []" by simp
  have v: "(of_int (digits_val 16 0 ''1234'') :: u32) = 0x1234"
    "list_all (is_digit 16) ''1234''" "fmt_08x 0x1234 = ''00001234''"
    by code_simp+
  have c: "isspace CHR '' ''" "\<not> isspace CHR ''-''" "\<not> isspace CHR ''0''" "\<not> isspace CHR ''z''"
    "is_sign CHR ''-''" "\<not> is_sign CHR ''0''" "\<not> is_sign CHR ''z''"
    "is_digit 16 CHR ''0''" "is_digit 16 CHR ''1''" "is_digit 16 CHR ''2''" "is_digit 16 CHR ''3''"
    "is_digit 16 CHR ''4''" "\<not> is_digit 16 CHR ''z''"
    "has_hex_prefix ''0x1234''" "\<not> has_hex_prefix ''1''"
    "(of_int (digits_val 16 0 ''1'') :: u32) = 1"
    by code_simp+
  from hex_item_scan [OF k nv ne, where fs = "sample_fs(''./out.img-base'' := Content ''1234'')"
      and d = "''1234''" and ds = "''1234''" and K = sample_K and X = sample_X,
      THEN conjunct2, THEN conjunct1] p v
  have w1: "case ?rd ''1234'' of Next t \<Rightarrow> p_num t I_base = 0x1234 | Return r \<Rightarrow> False"
    by simp
  from hex_item_scan [OF k nv ne,
      where fs = "sample_fs(''./out.img-base'' := Content ''00001234\<newline>'')"
      and d = "''00001234\<newline>''" and w = "0x1234" and K = sample_K and X = sample_X,
      THEN conjunct2, THEN conjunct2] p v
  have w2: "case ?rd ''00001234\<newline>'' of Next t \<Rightarrow> p_num t I_base = 0x1234 | Return r \<Rightarrow> False"
    by simp
  from hex_item_scan [OF k nv ne, where fs = "sample_fs(''./out.img-base'' := Content '' -1'')"
      and d = "'' -1''" and K = sample_K and X = sample_X, THEN conjunct1] p c
  have w3: "case ?rd '' -1'' of Next t \<Rightarrow> p_num t I_base = - 1 | Return r \<Rightarrow> False"
    by (simp add: Let_def)
  from hex_item_scan [OF k nv ne, where fs = "sample_fs(''./out.img-base'' := Content ''0x1234'')"
      and d = "''0x1234''" and K = sample_K and X = sample_X, THEN conjunct1] p c v
  have w4: "case ?rd ''0x1234'' of Next t \<Rightarrow> p_num t I_base = 0x1234 | Return r \<Rightarrow> False"
    by (simp add: Let_def)
  from hex_item_scan [OF k nv ne, where fs = "sample_fs(''./out.img-base'' := Content ''zzzz'')"
      and d = "''zzzz''" and K = sample_K and X = sample_X, THEN conjunct1] p c
  have w5: "case ?rd ''zzzz'' of Next t \<Rightarrow> False
    | Return r \<Rightarrow> r = (False, [Print Stdout ''Input files:'', Fopen I_base ''./out.img-base'',
                                 format_error ''./out.img-base'' ''%08x''])"
    by (simp add: Let_def)
  from w1 w2 w3 w4 w5 show ?thesis by blast
qed

text \<open>
  C4 (a scalar file that cannot be opened). The specification has only a file that does
  not exist replaced by the default, and any other failure to open or read it fatal.
  The scalar blocks test only whether \<^verbatim>\<open>fopen\<close> returned a stream, not
  \<^verbatim>\<open>errno\<close>: with a base file that exists and may not be opened (\<^verbatim>\<open>EACCES\<close>), pack opens
  it, prints no error, succeeds and uses \<open>DefaultBase\<close>. A read error on an open
  stream is fatal, as specified, and so is \<^verbatim>\<open>EACCES\<close> on an optional blob, whose statement
  does test \<^verbatim>\<open>errno != ENOENT\<close>.
\<close>

theorem scalar_open_failure_gets_default:
  "(let r = pack_main sample_X sample_K (sample_fs(''./out.img-base'' := Denied))
              [''pack'', ''out.img'']
    in ret r \<and> trace r ! 3 = Fopen I_base ''./out.img-base''
       \<and> io_error ''./out.img-base'' EACCES \<notin> set (trace r)
       \<and> map_option kernelAddress (image r)
            = Some (DefaultBase sample_K + DefaultKernelOffset sample_K))
   \<and> (let r = pack_main sample_X sample_K (sample_fs(''./out.img-base'' := Corrupt))
              [''pack'', ''out.img'']
    in \<not> ret r \<and> last (trace r) = io_error ''./out.img-base'' EIO)
   \<and> (let r = pack_main sample_X sample_K (sample_fs(''./out.img-second'' := Denied))
              [''pack'', ''out.img'']
    in \<not> ret r \<and> last (trace r) = io_error ''./out.img-second'' EACCES)"
  by code_simp

text \<open>
  C9 (value literals). The specification has a literal that is not an unsigned 32-bit
  number rejected. \<^verbatim>\<open>str_to_uint32\<close> rejects only what \<^verbatim>\<open>strtoul\<close> reports as
  \<^verbatim>\<open>ERANGE\<close>, the range of \<^verbatim>\<open>unsigned long\<close>, and then stores the result in a
  \<^verbatim>\<open>uint32_t\<close>: where \<^verbatim>\<open>unsigned long\<close> has 64 bits, \<^verbatim>\<open>--value-base 100000000\<close>
  (\<open>2^32\<close>) is accepted as base 0 and \<^verbatim>\<open>--value-page_size=4294967296\<close> as page size 0;
  where it has 32 bits the same literal is rejected. A negative literal is accepted on
  both (\<^verbatim>\<open>-1\<close> is \<open>0xffffffff\<close>).
\<close>

theorem value_literal_beyond_32_bits_accepted:
  "str_to_uint32 18446744073709551615 16 ''100000000'' = Some 0
   \<and> str_to_uint32 18446744073709551615 10 ''4294967296'' = Some 0
   \<and> str_to_uint32 4294967295 16 ''100000000'' = None
   \<and> str_to_uint32 4294967295 10 ''-1'' = Some 0xffffffff
   \<and> (let r = pack_main sample_X sample_K sample_fs
                [''pack'', ''out.img'', ''--value-base'', ''100000000'']
       in ret r \<and> map_option kernelAddress (image r) = Some (0 + DefaultKernelOffset sample_K))
   \<and> (let r = pack_main sample_X sample_K sample_fs
                [''pack'', ''out.img'', ''--value-page_size=4294967296'']
       in ret r \<and> map_option pageSize (image r) = Some 0)"
  by code_simp

subsection \<open>Default paths\<close>




end
